theory Spec2Isabelle
  imports Main "HOL-Library.Word" "HOL-Library.Sublist"
begin

section \<open>JavaScript strings\<close>

text \<open>
  A JavaScript string is a sequence of 16-bit code units. String literals of the source
  are ASCII and are written \<open>js ''...''\<close>.
\<close>

type_synonym cu = "16 word"
type_synonym jsstring = "cu list"

definition js :: "string \<Rightarrow> jsstring" where
  "js s = map (\<lambda>c. of_nat (of_char c)) s"

section \<open>Regular expressions\<close>

text \<open>
  The fragment of ECMAScript regular expressions that the source uses: literal
  characters, \<open>.\<close>, character classes given by ranges (plain and negated), sequence,
  alternation, \<open>*\<close> and \<open>+\<close> on a single-character atom (the only quantified atoms in
  the source are \<open>.\<close> and character classes), and one capturing group. Non-capturing
  groups \<open>(?:...)\<close> are plain nesting.
\<close>

datatype atom = Lit cu | Dot | Cls "(cu \<times> cu) list" | NCls "(cu \<times> cu) list"

datatype regex =
    Eps
  | Atom atom
  | Seq regex regex
  | Alt regex regex
  | Star atom
  | Plus atom
  | Group regex

text \<open>A literal string as a pattern: the sequence of its characters.\<close>

fun lits :: "jsstring \<Rightarrow> regex" where
  "lits [] = Eps"
| "lits (c # cs) = Seq (Atom (Lit c)) (lits cs)"

text \<open>
  Case folding under the \<open>i\<close> flag (without the \<open>u\<close> flag). ECMAScript's Canonicalize
  upper-cases a code unit, but never maps a code unit of 128 or above to one below 128.
  Every pattern character of the source is ASCII, so an input code unit matches a pattern
  character exactly when both are ASCII and agree after ASCII upper-casing; code units of
  128 and above are left as they are here, which decides every comparison with an ASCII
  pattern character the way Canonicalize does.
\<close>

definition upper :: "cu \<Rightarrow> cu" where
  "upper c = (if 0x61 \<le> c \<and> c \<le> 0x7A then c - 0x20 else c)"

definition lower :: "cu \<Rightarrow> cu" where
  "lower c = (if 0x41 \<le> c \<and> c \<le> 0x5A then c + 0x20 else c)"

fun in_ranges :: "(cu \<times> cu) list \<Rightarrow> cu \<Rightarrow> bool" where
  "in_ranges [] c = False"
| "in_ranges ((lo, hi) # rs) c = ((lo \<le> c \<and> c \<le> hi) \<or> in_ranges rs c)"

definition in_class :: "bool \<Rightarrow> (cu \<times> cu) list \<Rightarrow> cu \<Rightarrow> bool" where
  "in_class i rs c =
     (in_ranges rs c \<or> (i \<and> (in_ranges rs (upper c) \<or> in_ranges rs (lower c))))"

text \<open>\<open>.\<close> matches every code unit but the line terminators LF, CR, U+2028 and U+2029.\<close>

fun amatch :: "bool \<Rightarrow> atom \<Rightarrow> cu \<Rightarrow> bool" where
  "amatch i (Lit p) c = (if i then upper c = upper p else c = p)"
| "amatch i Dot c = (c \<noteq> 0x0A \<and> c \<noteq> 0x0D \<and> c \<noteq> 0x2028 \<and> c \<noteq> 0x2029)"
| "amatch i (Cls rs) c = in_class i rs c"
| "amatch i (NCls rs) c = (\<not> in_class i rs c)"

text \<open>
  The backtracking matcher, as a list of successes in the order in which a backtracking
  engine tries them: each success is the text captured by the group (if the group took
  part) and the input that remains. A quantified atom is greedy: the longest run first.
\<close>

type_synonym mresult = "jsstring option \<times> jsstring"

fun mstar :: "bool \<Rightarrow> atom \<Rightarrow> jsstring \<Rightarrow> jsstring list" where
  "mstar i a [] = [[]]"
| "mstar i a (c # cs) = (if amatch i a c then mstar i a cs @ [c # cs] else [c # cs])"

fun rmatch :: "bool \<Rightarrow> regex \<Rightarrow> jsstring \<Rightarrow> mresult list" where
  "rmatch i Eps s = [(None, s)]"
| "rmatch i (Atom a) s =
     (case s of [] \<Rightarrow> [] | c # cs \<Rightarrow> if amatch i a c then [(None, cs)] else [])"
| "rmatch i (Seq r1 r2) s =
     concat (map (\<lambda>(g1, s1).
        map (\<lambda>(g2, s2). (case g2 of None \<Rightarrow> g1 | Some x \<Rightarrow> Some x, s2)) (rmatch i r2 s1))
        (rmatch i r1 s))"
| "rmatch i (Alt r1 r2) s = rmatch i r1 s @ rmatch i r2 s"
| "rmatch i (Star a) s = map (Pair None) (mstar i a s)"
| "rmatch i (Plus a) s =
     (case s of [] \<Rightarrow> []
      | c # cs \<Rightarrow> if amatch i a c then map (Pair None) (mstar i a cs) else [])"
| "rmatch i (Group r) s =
     map (\<lambda>(g, s'). (Some (take (length s - length s') s), s')) (rmatch i r s)"

text \<open>
  \<open>exec\<close> tries the start positions from left to right and takes the first success at
  the first position that has one; \<open>test\<close> asks whether there is a match at all.
\<close>

fun exec :: "bool \<Rightarrow> regex \<Rightarrow> jsstring \<Rightarrow> mresult option" where
  "exec i r [] = (case rmatch i r [] of [] \<Rightarrow> None | m # _ \<Rightarrow> Some m)"
| "exec i r (c # cs) = (case rmatch i r (c # cs) of [] \<Rightarrow> exec i r cs | m # _ \<Rightarrow> Some m)"

definition test :: "bool \<Rightarrow> regex \<Rightarrow> jsstring \<Rightarrow> bool" where
  "test i r s = (exec i r s \<noteq> None)"

section \<open>Platform detection (API routes)\<close>

datatype platform = YouTube | TikTok | Instagram | Facebook | Unknown

text \<open>
  \<open>detectPlatform\<close> of \<open>api/analyze/route.ts\<close> and \<open>api/download/route.ts\<close> (the two
  copies are identical). The tags stand for the strings \<open>"youtube"\<close>, \<open>"tiktok"\<close>,
  \<open>"instagram"\<close>, \<open>"facebook"\<close> and \<open>"unknown"\<close>.
\<close>

definition detectPlatform :: "jsstring \<Rightarrow> platform" where
  "detectPlatform url =
     (if test True (Alt (lits (js ''youtube.com'')) (lits (js ''youtu.be''))) url then YouTube
      else if test True (lits (js ''tiktok.com'')) url then TikTok
      else if test True (lits (js ''instagram.com'')) url then Instagram
      else if test True (Alt (lits (js ''facebook.com'')) (lits (js ''fb.watch''))) url then Facebook
      else Unknown)"

section \<open>Platform detection (client store)\<close>

text \<open>
  \<open>detectPlatform\<close> of \<open>lib/store.ts\<close>. It walks \<open>Object.entries(patterns)\<close> in
  insertion order, skips the entry \<open>unknown\<close> and returns the first platform whose
  pattern matches. The pattern of \<open>unknown\<close>, \<open>/.*/\<close>, has no \<open>i\<close> flag.
\<close>

definition word_chars :: "(cu \<times> cu) list" where
  "word_chars = [(0x30, 0x39), (0x41, 0x5A), (0x5F, 0x5F), (0x61, 0x7A)]"

definition patterns :: "(platform \<times> bool \<times> regex) list" where
  "patterns =
    [(YouTube, True,
        Alt (Seq (lits (js ''youtube.com/'')) (Alt (lits (js ''watch?v='')) (lits (js ''shorts/''))))
            (lits (js ''youtu.be/''))),
     (TikTok, True,
        Alt (Seq (lits (js ''tiktok.com/@''))
               (Seq (Plus (Cls (word_chars @ [(0x2E, 0x2E), (0x2D, 0x2D)]))) (lits (js ''/video/''))))
            (lits (js ''vm.tiktok.com/''))),
     (Instagram, True,
        Seq (lits (js ''instagram.com/''))
          (Seq (Alt (lits (js ''p'')) (Alt (lits (js ''reel'')) (lits (js ''reels''))))
               (lits (js ''/'')))),
     (Facebook, True,
        Alt (Seq (lits (js ''facebook.com/'')) (Seq (Star Dot) (lits (js ''/videos/''))))
            (lits (js ''fb.watch/''))),
     (Unknown, False, Star Dot)]"

fun detect_loop :: "(platform \<times> bool \<times> regex) list \<Rightarrow> jsstring \<Rightarrow> platform" where
  "detect_loop [] url = Unknown"
| "detect_loop ((p, i, r) # rest) url =
     (if p \<noteq> Unknown \<and> test i r url then p else detect_loop rest url)"

definition detectPlatform_store :: "jsstring \<Rightarrow> platform" where
  "detectPlatform_store url = detect_loop patterns url"

text \<open>The position of a platform's rule in the \<open>if\<close> chain of the API routes.\<close>

fun rule_index :: "platform \<Rightarrow> nat" where
  "rule_index YouTube = 0"
| "rule_index TikTok = 1"
| "rule_index Instagram = 2"
| "rule_index Facebook = 3"
| "rule_index Unknown = 4"

section \<open>JavaScript helpers used by the routes\<close>

text \<open>A thrown \<open>Error\<close>; the routes only ever read its \<open>message\<close>.\<close>

datatype error = Error (message: jsstring)

text \<open>
  Values that can be absent are options: \<open>None\<close> is \<open>undefined\<close> (or \<open>null\<close>). A value
  is falsy when it is absent or the empty string; \<open>x || d\<close> is \<open>or_else x d\<close>.
\<close>

fun falsy :: "jsstring option \<Rightarrow> bool" where
  "falsy None = True"
| "falsy (Some s) = (s = [])"

definition or_else :: "jsstring option \<Rightarrow> jsstring \<Rightarrow> jsstring" where
  "or_else x d = (case x of None \<Rightarrow> d | Some s \<Rightarrow> if s = [] then d else s)"

text \<open>
  White space as \<open>\s\<close> and \<open>parseInt\<close> see it: TAB, LF, VT, FF, CR, space, NBSP, the
  Unicode space separators, U+2028, U+2029 and U+FEFF.
\<close>

definition space_chars :: "(cu \<times> cu) list" where
  "space_chars =
     [(0x09, 0x0D), (0x20, 0x20), (0xA0, 0xA0), (0x1680, 0x1680), (0x2000, 0x200A),
      (0x2028, 0x2029), (0x202F, 0x202F), (0x205F, 0x205F), (0x3000, 0x3000), (0xFEFF, 0xFEFF)]"

text \<open>
  The numbers that \<open>parseInt\<close> and a difference of its results can be: an integer that
  is a double, an infinity, or \<open>NaN\<close>. (The sign of a zero is not kept: nothing in the
  source tells \<open>-0\<close> from \<open>0\<close>.)
\<close>

datatype jsnum = NaN | Num int | PosInfinity | NegInfinity

text \<open>
  The double nearest to an integer that is not negative, ties to the even significand;
  \<open>None\<close> when the rounded value reaches \<open>2^1024\<close> and the double is an infinity.
  \<open>bitlen\<close> is the number of binary digits.
\<close>

function bitlen :: "int \<Rightarrow> nat" where
  "bitlen n = (if n \<le> 0 then 0 else Suc (bitlen (n div 2)))"
  by pat_completeness auto
termination
  by (relation "measure nat") auto

definition to_double :: "int \<Rightarrow> int option" where
  "to_double m =
     (if bitlen m \<le> 53 then Some m
      else
        (let e = bitlen m - 53;
             q = m div 2 ^ e;
             r = m mod 2 ^ e;
             q' = (if 2 ^ e < 2 * r \<or> (2 * r = 2 ^ e \<and> odd q) then q + 1 else q)
         in if 2 ^ 1024 \<le> q' * 2 ^ e then None else Some (q' * 2 ^ e)))"

definition round_int :: "int \<Rightarrow> jsnum" where
  "round_int x =
     (case to_double \<bar>x\<bar> of
        None \<Rightarrow> if x < 0 then NegInfinity else PosInfinity
      | Some v \<Rightarrow> Num (if x < 0 then - v else v))"

text \<open>
  \<open>parseInt(s)\<close> with no radix: leading white space is dropped, then an optional sign,
  then \<open>0x\<close> or \<open>0X\<close> selects radix 16 (else 10), then the longest run of digits of the
  radix is read; no digit gives \<open>NaN\<close>. The integer read is rounded to a double.
\<close>

definition digit_val :: "nat \<Rightarrow> cu \<Rightarrow> nat option" where
  "digit_val radix c =
     (let v = (if 0x30 \<le> c \<and> c \<le> 0x39 then Some (unat c - 0x30)
               else if 0x61 \<le> c \<and> c \<le> 0x7A then Some (unat c - 0x61 + 10)
               else if 0x41 \<le> c \<and> c \<le> 0x5A then Some (unat c - 0x41 + 10)
               else None)
      in case v of None \<Rightarrow> None | Some d \<Rightarrow> if d < radix then Some d else None)"

fun digits_val :: "nat \<Rightarrow> int option \<Rightarrow> jsstring \<Rightarrow> int option" where
  "digits_val radix acc [] = acc"
| "digits_val radix acc (c # cs) =
     (case digit_val radix c of
        None \<Rightarrow> acc
      | Some d \<Rightarrow>
          digits_val radix (Some ((case acc of None \<Rightarrow> 0 | Some a \<Rightarrow> a) * int radix + int d)) cs)"

definition parseInt :: "jsstring \<Rightarrow> jsnum" where
  "parseInt s =
     (let s1 = dropWhile (in_ranges space_chars) s;
          neg = (case s1 of [] \<Rightarrow> False | c # _ \<Rightarrow> c = 0x2D);
          s2 = (case s1 of [] \<Rightarrow> [] | c # cs \<Rightarrow> if c = 0x2B \<or> c = 0x2D then cs else s1);
          hex = (case s2 of a # b # _ \<Rightarrow> a = 0x30 \<and> (b = 0x78 \<or> b = 0x58) | _ \<Rightarrow> False);
          r = (if hex then digits_val 16 None (drop 2 s2) else digits_val 10 None s2)
      in case r of None \<Rightarrow> NaN | Some n \<Rightarrow> round_int (if neg then - n else n))"

text \<open>\<open>x || 0\<close> on a number: \<open>NaN\<close> and zero are falsy.\<close>

fun or_zero :: "jsnum \<Rightarrow> jsnum" where
  "or_zero NaN = Num 0"
| "or_zero x = x"

text \<open>\<open>y - x\<close> on these numbers: the exact difference, rounded to a double.\<close>

fun minus_num :: "jsnum \<Rightarrow> jsnum \<Rightarrow> jsnum" where
  "minus_num (Num y) (Num x) = round_int (y - x)"
| "minus_num NaN x = NaN"
| "minus_num y NaN = NaN"
| "minus_num PosInfinity PosInfinity = NaN"
| "minus_num NegInfinity NegInfinity = NaN"
| "minus_num PosInfinity x = PosInfinity"
| "minus_num NegInfinity x = NegInfinity"
| "minus_num (Num y) PosInfinity = NegInfinity"
| "minus_num (Num y) NegInfinity = PosInfinity"

text \<open>
  \<open>encodeURIComponent\<close>: the unreserved characters stay, every other code point is
  written as the \<open>%XX\<close> escapes of its UTF-8 bytes, and a lone surrogate throws a
  \<open>URIError\<close>.
\<close>

definition unreserved :: "(cu \<times> cu) list" where
  "unreserved =
     [(0x41, 0x5A), (0x61, 0x7A), (0x30, 0x39), (0x2D, 0x2D), (0x5F, 0x5F), (0x2E, 0x2E),
      (0x21, 0x21), (0x7E, 0x7E), (0x2A, 0x2A), (0x27, 0x27), (0x28, 0x29)]"

definition hexdigit :: "nat \<Rightarrow> cu" where
  "hexdigit n = (if n < 10 then of_nat (0x30 + n) else of_nat (0x41 + (n - 10)))"

definition percent :: "nat \<Rightarrow> jsstring" where
  "percent b = [0x25, hexdigit (b div 16), hexdigit (b mod 16)]"

definition utf8 :: "nat \<Rightarrow> nat list" where
  "utf8 v =
     (if v < 0x80 then [v]
      else if v < 0x800 then [0xC0 + v div 0x40, 0x80 + v mod 0x40]
      else if v < 0x10000 then [0xE0 + v div 0x1000, 0x80 + (v div 0x40) mod 0x40, 0x80 + v mod 0x40]
      else [0xF0 + v div 0x40000, 0x80 + (v div 0x1000) mod 0x40,
            0x80 + (v div 0x40) mod 0x40, 0x80 + v mod 0x40])"

definition escape :: "nat \<Rightarrow> jsstring" where
  "escape v = concat (map percent (utf8 v))"

fun encodeURIComponent :: "jsstring \<Rightarrow> error + jsstring" where
  "encodeURIComponent [] = Inr []"
| "encodeURIComponent (c # cs) =
     (if in_ranges unreserved c then
        (case encodeURIComponent cs of Inl e \<Rightarrow> Inl e | Inr r \<Rightarrow> Inr (c # r))
      else if 0xDC00 \<le> c \<and> c \<le> 0xDFFF then Inl (Error (js ''URI malformed''))
      else if 0xD800 \<le> c \<and> c \<le> 0xDBFF then
        (case cs of
           [] \<Rightarrow> Inl (Error (js ''URI malformed''))
         | d # ds \<Rightarrow>
             if 0xDC00 \<le> d \<and> d \<le> 0xDFFF then
               (case encodeURIComponent ds of
                  Inl e \<Rightarrow> Inl e
                | Inr r \<Rightarrow>
                    Inr (escape ((unat c - 0xD800) * 0x400 + (unat d - 0xDC00) + 0x10000) @ r))
             else Inl (Error (js ''URI malformed'')))
      else
        (case encodeURIComponent cs of Inl e \<Rightarrow> Inl e | Inr r \<Rightarrow> Inr (escape (unat c) @ r)))"

text \<open>
  \<open>new Set\<close> filled by \<open>add\<close> and read back by \<open>Array.from\<close>: the distinct elements in
  the order of their first insertion.
\<close>

definition set_add :: "jsstring list \<Rightarrow> jsstring \<Rightarrow> jsstring list" where
  "set_add acc x = (if x \<in> set acc then acc else acc @ [x])"

text \<open>
  The comparator \<open>(a, b) => parseInt(b) - parseInt(a)\<close> of \<open>analyzeYouTube\<close>.
\<close>

definition compare_desc :: "jsstring \<Rightarrow> jsstring \<Rightarrow> jsnum" where
  "compare_desc a b = minus_num (parseInt b) (parseInt a)"

section \<open>The outside world\<close>

text \<open>
  The routes reach the outside through \<open>fetch\<close>, through the \<open>ytdl\<close> library and through
  \<open>process.env\<close>. These are parameters of the model, collected in a record \<open>world\<close>; every
  function of the routes takes the world and returns, next to its result, the list of
  calls it made to the outside, in order. A promise that rejects and a \<open>throw\<close> are an
  \<open>Inl\<close> with the error. Output to the console is not modelled.

  The JSON objects the routes read are modelled at the fields they read, with the types
  the source assumes in its comments: \<open>title\<close> and \<open>picture\<close> are strings when present,
  \<open>links\<close> is a list of objects with the string fields \<open>quality\<close> and \<open>link\<close>.
\<close>

record link_entry =
  link_quality :: "jsstring option"
  link_link :: "jsstring option"

record json_data =
  data_title :: "jsstring option"
  data_picture :: "jsstring option"
  data_links :: "link_entry list option"

datatype stream_event = Chunk "8 word list" | End | StreamError error

type_synonym stream = "stream_event list"

text \<open>A request of \<open>fetch\<close>: its URL and headers. Every request of the routes is a \<open>GET\<close>.\<close>

record request =
  req_url :: jsstring
  req_headers :: "(jsstring \<times> jsstring) list"

text \<open>
  What the routes read of a \<open>fetch\<close> response: \<open>ok\<close>, \<open>statusText\<close>, the header
  \<open>content-length\<close>, the result of \<open>json()\<close> (which rejects when the body is not JSON)
  and the body as a stream. A body that is the JSON value \<open>null\<close> makes the first read of
  a property throw inside the same \<open>try\<close> block; it is an \<open>Inl\<close> of \<open>res_json\<close> as well.
\<close>

record response =
  res_ok :: bool
  res_statusText :: jsstring
  res_content_length :: "jsstring option"
  res_json :: "error + json_data"
  res_body :: stream

text \<open>
  What the routes read of the library's \<open>videoInfo\<close> and \<open>videoFormat\<close>; \<open>vd_thumbnails\<close>
  holds the \<open>url\<close> of each thumbnail. In the world, \<open>ytdl_filterFormats\<close> is
  \<open>ytdl.filterFormats(formats, "videoandaudio")\<close> and \<open>ytdl_download url format\<close> is the
  stream \<open>ytdl(url, {format})\<close>.

  \<open>array_sort compare xs\<close> is \<open>xs.sort(compare)\<close> of the engine. ECMAScript fixes its
  result only when the comparator is a consistent order; with labels that do not parse
  the comparator of \<open>analyzeYouTube\<close> returns \<open>NaN\<close> and is not one, and the order is the
  engine's own. So the sort belongs to the world.
\<close>

record videoFormat =
  itag :: nat
  qualityLabel :: "jsstring option"

record videoDetails =
  vd_title :: jsstring
  vd_lengthSeconds :: jsstring
  vd_thumbnails :: "jsstring list"

record videoInfo =
  info_formats :: "videoFormat list"
  info_videoDetails :: videoDetails

record world =
  env_RAPIDAPI_KEY :: "jsstring option"
  fetch :: "request \<Rightarrow> error + response"
  ytdl_getInfo :: "jsstring \<Rightarrow> error + videoInfo"
  ytdl_filterFormats :: "videoFormat list \<Rightarrow> videoFormat list"
  ytdl_download :: "jsstring \<Rightarrow> videoFormat \<Rightarrow> stream"
  array_sort :: "(jsstring \<Rightarrow> jsstring \<Rightarrow> jsnum) \<Rightarrow> jsstring list \<Rightarrow> jsstring list"

datatype call =
    FetchCall request
  | GetInfoCall jsstring
  | DownloadCall jsstring videoFormat

type_synonym 'a io = "call list \<times> (error + 'a)"

section \<open>The aggregation API (both routes)\<close>

text \<open>
  \<open>RAPIDAPI_KEY\<close>, \<open>RAPIDAPI_HOST\<close> and \<open>fetchFromRapidAPI\<close> are the same text in
  \<open>api/analyze/route.ts\<close> and \<open>api/download/route.ts\<close>.
\<close>

definition RAPIDAPI_KEY :: "world \<Rightarrow> jsstring" where
  "RAPIDAPI_KEY w =
     or_else (env_RAPIDAPI_KEY w) (js ''660e8df9ffmshda83470792f30bep12a0b5jsnc90613c2cfde'')"

definition RAPIDAPI_HOST :: jsstring where
  "RAPIDAPI_HOST = js ''social-media-video-downloader.p.rapidapi.com''"

definition rapidapi_request :: "world \<Rightarrow> jsstring \<Rightarrow> request" where
  "rapidapi_request w encodedUrl =
     \<lparr>req_url = js ''https://'' @ RAPIDAPI_HOST @ js ''/smvd/get/all?url='' @ encodedUrl,
      req_headers = [(js ''x-rapidapi-key'', RAPIDAPI_KEY w),
                     (js ''x-rapidapi-host'', RAPIDAPI_HOST)]\<rparr>"

definition fetchFromRapidAPI :: "world \<Rightarrow> jsstring \<Rightarrow> json_data io" where
  "fetchFromRapidAPI w url =
     (if RAPIDAPI_KEY w = [] then ([], Inl (Error (js ''RAPIDAPI_KEY is not configured'')))
      else
        (case encodeURIComponent url of
           Inl e \<Rightarrow> ([], Inl e)
         | Inr encodedUrl \<Rightarrow>
             (case fetch w (rapidapi_request w encodedUrl) of
                Inl e \<Rightarrow> ([FetchCall (rapidapi_request w encodedUrl)], Inl e)
              | Inr resp \<Rightarrow>
                  if \<not> res_ok resp then
                    ([FetchCall (rapidapi_request w encodedUrl)],
                     Inl (Error (js ''RapidAPI error: '' @ res_statusText resp)))
                  else ([FetchCall (rapidapi_request w encodedUrl)], res_json resp))))"

section \<open>The analyze route\<close>

record metadata =
  md_platform :: platform
  md_title :: jsstring
  md_thumbnail :: jsstring
  md_duration :: jsnum
  md_qualities :: "jsstring list"

text \<open>
  The class \<open>[^&\n?#]\<close> of \<open>extractYouTubeId\<close> and its two patterns (they have no \<open>i\<close>
  flag).
\<close>

definition id_stop :: "(cu \<times> cu) list" where
  "id_stop = [(0x26, 0x26), (0x0A, 0x0A), (0x3F, 0x3F), (0x23, 0x23)]"

definition watch_pattern :: regex where
  "watch_pattern =
     Seq (Alt (lits (js ''youtube.com/watch?v=''))
            (Alt (lits (js ''youtu.be/''))
              (Alt (lits (js ''youtube.com/embed/'')) (lits (js ''youtube.com/v/'')))))
         (Group (Plus (NCls id_stop)))"

definition shorts_pattern :: regex where
  "shorts_pattern = Seq (lits (js ''youtube.com/shorts/'')) (Group (Plus (NCls id_stop)))"

definition id_patterns :: "regex list" where
  "id_patterns = [watch_pattern, shorts_pattern]"

text \<open>
  \<open>url.match(pattern)\<close> for a pattern without the \<open>g\<close> flag is \<open>exec\<close>; \<open>match[1]\<close> is the
  text of the group.
\<close>

fun first_match :: "regex list \<Rightarrow> jsstring \<Rightarrow> jsstring option" where
  "first_match [] url = None"
| "first_match (pattern # rest) url =
     (case exec False pattern url of Some m \<Rightarrow> fst m | None \<Rightarrow> first_match rest url)"

definition extractYouTubeId :: "jsstring \<Rightarrow> jsstring option" where
  "extractYouTubeId url = first_match id_patterns url"

definition oembed_request :: "jsstring \<Rightarrow> request" where
  "oembed_request videoId =
     \<lparr>req_url = js ''https://www.youtube.com/oembed?url=https://www.youtube.com/watch?v=''
                  @ videoId @ js ''&format=json'',
      req_headers = []\<rparr>"

text \<open>
  Method 1 of \<open>analyzeYouTube\<close>: the first \<open>try\<close> block. \<open>None\<close> means that control falls
  through to method 2: the response is not \<open>ok\<close>, or \<open>fetch\<close> or \<open>json()\<close> rejected and the
  \<open>catch\<close> swallowed the error.
\<close>

definition analyzeYouTube_oembed :: "world \<Rightarrow> jsstring \<Rightarrow> call list \<times> metadata option" where
  "analyzeYouTube_oembed w videoId =
     ([FetchCall (oembed_request videoId)],
      case fetch w (oembed_request videoId) of
        Inl e \<Rightarrow> None
      | Inr oembedResponse \<Rightarrow>
          if res_ok oembedResponse then
            (case res_json oembedResponse of
               Inl e \<Rightarrow> None
             | Inr oembedData \<Rightarrow>
                 Some \<lparr>md_platform = YouTube,
                       md_title = or_else (data_title oembedData) (js ''YouTube Video''),
                       md_thumbnail = js ''https://i.ytimg.com/vi/'' @ videoId @ js ''/maxresdefault.jpg'',
                       md_duration = Num 0,
                       md_qualities = [js ''1080p'', js ''720p'', js ''480p'', js ''360p'']\<rparr>)
          else None)"

text \<open>Method 2: the second \<open>try\<close> block, on the library.\<close>

definition ytdl_qualities :: "world \<Rightarrow> videoFormat list \<Rightarrow> jsstring list" where
  "ytdl_qualities w fs =
     array_sort w compare_desc (foldl (\<lambda>qualitySet f.
        if falsy (qualityLabel f) then qualitySet else set_add qualitySet (the (qualityLabel f)))
        [] fs)"

definition analyzeYouTube_ytdl :: "world \<Rightarrow> jsstring \<Rightarrow> call list \<times> metadata option" where
  "analyzeYouTube_ytdl w url =
     ([GetInfoCall url],
      case ytdl_getInfo w url of
        Inl e \<Rightarrow> None
      | Inr info \<Rightarrow>
          (let qualities = ytdl_qualities w (ytdl_filterFormats w (info_formats info));
               thumbs = vd_thumbnails (info_videoDetails info)
           in Some \<lparr>md_platform = YouTube,
                    md_title = vd_title (info_videoDetails info),
                    md_thumbnail = (if thumbs = [] then [] else last thumbs),
                    md_duration = or_zero (parseInt (vd_lengthSeconds (info_videoDetails info))),
                    md_qualities =
                      (if length qualities > 0 then qualities else [js ''720p'', js ''360p''])\<rparr>))"

definition analyzeYouTube :: "world \<Rightarrow> jsstring \<Rightarrow> metadata io" where
  "analyzeYouTube w url =
     (case extractYouTubeId url of
        None \<Rightarrow> ([], Inl (Error (js ''Invalid YouTube URL'')))
      | Some videoId \<Rightarrow>
          if videoId = [] then ([], Inl (Error (js ''Invalid YouTube URL'')))
          else
            (case analyzeYouTube_oembed w videoId of
               (c1, Some r) \<Rightarrow> (c1, Inr r)
             | (c1, None) \<Rightarrow>
                 (case analyzeYouTube_ytdl w url of
                    (c2, Some r) \<Rightarrow> (c1 @ c2, Inr r)
                  | (c2, None) \<Rightarrow>
                      (c1 @ c2,
                       Inr \<lparr>md_platform = YouTube,
                            md_title = js ''YouTube Video'',
                            md_thumbnail = js ''https://i.ytimg.com/vi/'' @ videoId @ js ''/hqdefault.jpg'',
                            md_duration = Num 0,
                            md_qualities = [js ''720p'', js ''360p'']\<rparr>))))"

text \<open>\<open>data.links[0].link\<close> when \<open>data.links\<close> is a non-empty list, else the initial \<open>""\<close>.\<close>

definition first_link :: "json_data \<Rightarrow> jsstring option" where
  "first_link d =
     (case data_links d of
        None \<Rightarrow> Some []
      | Some [] \<Rightarrow> Some []
      | Some (l # _) \<Rightarrow> link_link l)"

definition analyzeTikTok :: "world \<Rightarrow> jsstring \<Rightarrow> metadata io" where
  "analyzeTikTok w url =
     (case fetchFromRapidAPI w url of
        (cs, Inl e) \<Rightarrow> (cs, Inl (Error (js ''Failed to analyze TikTok video'')))
      | (cs, Inr d) \<Rightarrow>
          if falsy (first_link d) then (cs, Inl (Error (js ''Failed to analyze TikTok video'')))
          else
            (cs, Inr \<lparr>md_platform = TikTok,
                      md_title = or_else (Some (or_else (data_title d) (js ''TikTok Video'')))
                                   (js ''TikTok Video''),
                      md_thumbnail = or_else (data_picture d) [],
                      md_duration = Num 0,
                      md_qualities = [js ''HD'', js ''SD'']\<rparr>))"

definition analyzeInstagram :: "world \<Rightarrow> jsstring \<Rightarrow> metadata io" where
  "analyzeInstagram w url =
     (case fetchFromRapidAPI w url of
        (cs, Inl e) \<Rightarrow> (cs, Inl (Error (js ''Failed to analyze Instagram video'')))
      | (cs, Inr d) \<Rightarrow>
          (cs, Inr \<lparr>md_platform = Instagram,
                    md_title = or_else (Some (or_else (data_title d) (js ''Instagram Video'')))
                                 (js ''Instagram Video''),
                    md_thumbnail = or_else (data_picture d) [],
                    md_duration = Num 0,
                    md_qualities = [js ''HD'', js ''SD'']\<rparr>))"

definition analyzeFacebook :: "world \<Rightarrow> jsstring \<Rightarrow> metadata io" where
  "analyzeFacebook w url =
     (case fetchFromRapidAPI w url of
        (cs, Inl e) \<Rightarrow> (cs, Inl (Error (js ''Failed to analyze Facebook video'')))
      | (cs, Inr d) \<Rightarrow>
          (cs, Inr \<lparr>md_platform = Facebook,
                    md_title = or_else (Some (or_else (data_title d) (js ''Facebook Video'')))
                                 (js ''Facebook Video''),
                    md_thumbnail = or_else (data_picture d) [],
                    md_duration = Num 0,
                    md_qualities = [js ''HD'', js ''SD'']\<rparr>))"

text \<open>
  The request body after \<open>request.json()\<close> and the destructuring \<open>const {url, quality} =
  body\<close>. \<open>Unreadable\<close>: \<open>json()\<close> rejected, or the body is \<open>null\<close> and the destructuring
  threw; it carries the error. Otherwise the two properties, each \<open>undefined\<close>, \<open>null\<close>, a
  string, or some other value (a number, a boolean, an array, an object).
\<close>

datatype jsval = JUndefined | JNull | JStr jsstring | JOther

datatype request_body = Unreadable error | Body jsval jsval

text \<open>
  What a route returns: \<open>NextResponse.json({message}, {status})\<close>,
  \<open>NextResponse.json(result)\<close> (status 200), or a \<open>Response\<close> on a stream with its headers
  (status 200). The stream of a \<open>Response\<close> is either the body of an upstream response
  handed on as it is (\<open>Upstream\<close>), or a \<open>ReadableStream\<close> that the route feeds through its
  controller (\<open>Controlled\<close>); the latter is given by the calls made on the controller, in
  order. What a client reads of a controlled stream is not fixed by these calls alone:
  \<open>controller.error\<close> drops the chunks that were enqueued and not yet read.
\<close>

datatype controller_call = Enqueue "8 word list" | CloseStream | ErrorStream error

datatype body = Upstream stream | Controlled "controller_call list"

datatype reply =
    JsonMessage nat jsstring
  | JsonMetadata metadata
  | Download "(jsstring \<times> jsstring) list" body


definition analyze_reply :: "metadata io \<Rightarrow> call list \<times> reply" where
  "analyze_reply r =
     (case r of
        (cs, Inl e) \<Rightarrow> (cs, JsonMessage 500 (message e))
      | (cs, Inr result) \<Rightarrow> (cs, JsonMetadata result))"

definition POST_analyze :: "world \<Rightarrow> request_body \<Rightarrow> call list \<times> reply" where
  "POST_analyze w body =
     (case body of
        Unreadable e \<Rightarrow> ([], JsonMessage 500 (message e))
      | Body u q \<Rightarrow>
          (case u of
             JStr url \<Rightarrow>
               if url = [] then ([], JsonMessage 400 (js ''URL is required''))
               else
                 (case detectPlatform url of
                    YouTube \<Rightarrow> analyze_reply (analyzeYouTube w url)
                  | TikTok \<Rightarrow> analyze_reply (analyzeTikTok w url)
                  | Instagram \<Rightarrow> analyze_reply (analyzeInstagram w url)
                  | Facebook \<Rightarrow> analyze_reply (analyzeFacebook w url)
                  | Unknown \<Rightarrow>
                      ([], JsonMessage 400
                         (js ''Unsupported platform. Use YouTube, TikTok, Instagram, or Facebook.'')))
           | _ \<Rightarrow> ([], JsonMessage 400 (js ''URL is required''))))"

section \<open>The download route\<close>

definition stream_request :: "jsstring \<Rightarrow> request" where
  "stream_request videoUrl =
     \<lparr>req_url = videoUrl,
      req_headers =
        [(js ''User-Agent'',
          js ''Mozilla/5.0 (Windows NT 10.0; Win64; x64) AppleWebKit/537.36 (KHTML, like Gecko) Chrome/120.0.0.0 Safari/537.36'')]\<rparr>"

text \<open>The header value \<open>attachment; filename="..."\<close>; \<open>0x22\<close> is the double quote.\<close>

definition content_disposition :: "jsstring \<Rightarrow> jsstring" where
  "content_disposition filename = js ''attachment; filename='' @ [0x22] @ filename @ [0x22]"

text \<open>
  The header values of the \<open>Response\<close> of \<open>streamVideo\<close> are legal ones whatever the
  upstream sends: two are constants of the source (the file names passed in are
  constants too), and \<open>headers.get("content-length")\<close> reads a value that the engine has
  already accepted as a header value. So this \<open>new Response\<close> does not throw.
\<close>

definition streamVideo :: "world \<Rightarrow> jsstring \<Rightarrow> jsstring \<Rightarrow> reply io" where
  "streamVideo w videoUrl filename =
     ([FetchCall (stream_request videoUrl)],
      case fetch w (stream_request videoUrl) of
        Inl e \<Rightarrow> Inl e
      | Inr videoResponse \<Rightarrow>
          if \<not> res_ok videoResponse then Inl (Error (js ''Failed to download video stream''))
          else
            Inr (Download
                   [(js ''Content-Type'', js ''video/mp4''),
                    (js ''Content-Disposition'', content_disposition filename),
                    (js ''Content-Length'', or_else (res_content_length videoResponse) [])]
                   (Upstream (res_body videoResponse))))"

text \<open>
  \<open>f.qualityLabel === quality\<close>: a label is a string or absent (\<open>null\<close> in the library's
  tables); the requested quality is any value of the request body.
\<close>

fun label_is :: "jsval \<Rightarrow> videoFormat \<Rightarrow> bool" where
  "label_is (JStr q) f = (qualityLabel f = Some q)"
| "label_is JNull f = (qualityLabel f = None)"
| "label_is JUndefined f = False"
| "label_is JOther f = False"

text \<open>
  The choice of the format in \<open>downloadYouTube\<close>: \<open>formats.find(...)\<close>, else
  \<open>formats[0]\<close>, else the \<open>throw\<close>.
\<close>

definition selectFormat :: "videoFormat list \<Rightarrow> jsval \<Rightarrow> error + videoFormat" where
  "selectFormat formats quality =
     (case find (label_is quality) formats of
        Some selectedFormat \<Rightarrow> Inr selectedFormat
      | None \<Rightarrow>
          (case formats of
             selectedFormat # _ \<Rightarrow> Inr selectedFormat
           | [] \<Rightarrow> Inl (Error (js ''No suitable format found''))))"

text \<open>
  The web stream built on the library's stream, as the calls on its controller: each
  \<open>data\<close> event enqueues its chunk, \<open>end\<close> closes the stream, \<open>error\<close> puts it in the error
  state. The library's stream emits nothing after its end or its error.
\<close>

fun webStream :: "stream \<Rightarrow> controller_call list" where
  "webStream [] = []"
| "webStream (Chunk b # es) = Enqueue b # webStream es"
| "webStream (End # es) = [CloseStream]"
| "webStream (StreamError e # es) = [ErrorStream e]"

text \<open>
  \<open>new Response(body, {headers})\<close> throws a \<open>TypeError\<close> when a header value is not a
  legal one: a code unit above \<open>0xFF\<close>, or, once the white space (TAB, LF, CR, space) at
  both ends is removed, a NUL, LF or CR. The message of the error is the engine's; the
  routes never pass it on.
\<close>

definition http_space :: "cu \<Rightarrow> bool" where
  "http_space c = (c = 0x09 \<or> c = 0x0A \<or> c = 0x0D \<or> c = 0x20)"

definition valid_header_value :: "jsstring \<Rightarrow> bool" where
  "valid_header_value v =
     (list_all (\<lambda>c. c \<le> 0xFF) v
      \<and> list_all (\<lambda>c. c \<noteq> 0x00 \<and> c \<noteq> 0x0A \<and> c \<noteq> 0x0D)
            (dropWhile http_space (rev (dropWhile http_space (rev v)))))"

definition new_Response :: "(jsstring \<times> jsstring) list \<Rightarrow> body \<Rightarrow> error + reply" where
  "new_Response headers b =
     (if list_all (\<lambda>h. valid_header_value (snd h)) headers then Inr (Download headers b)
      else Inl (Error (js ''Invalid header value'')))"

text \<open>\<open>title.replace(/[^\w\s-]/g, "").substring(0, 50)\<close> with \<open>.mp4\<close> appended.\<close>

definition youtube_filename :: "jsstring \<Rightarrow> jsstring" where
  "youtube_filename title =
     take 50 (filter (\<lambda>c. \<not> amatch False (NCls (word_chars @ space_chars @ [(0x2D, 0x2D)])) c) title)
     @ js ''.mp4''"

text \<open>The \<open>try\<close> block of \<open>downloadYouTube\<close>, and the function with its \<open>catch\<close>.\<close>

definition downloadYouTube_try :: "world \<Rightarrow> jsstring \<Rightarrow> jsval \<Rightarrow> reply io" where
  "downloadYouTube_try w url quality =
     (case ytdl_getInfo w url of
        Inl e \<Rightarrow> ([GetInfoCall url], Inl e)
      | Inr info \<Rightarrow>
          (case selectFormat (ytdl_filterFormats w (info_formats info)) quality of
             Inl e \<Rightarrow> ([GetInfoCall url], Inl e)
           | Inr selectedFormat \<Rightarrow>
               ([GetInfoCall url, DownloadCall url selectedFormat],
                new_Response
                  [(js ''Content-Type'', js ''video/mp4''),
                   (js ''Content-Disposition'',
                    content_disposition (youtube_filename (vd_title (info_videoDetails info)))),
                   (js ''Transfer-Encoding'', js ''chunked'')]
                  (Controlled (webStream (ytdl_download w url selectedFormat))))))"

definition youtube_unavailable :: jsstring where
  "youtube_unavailable =
     js ''YouTube download is currently unavailable on this server. YouTube blocks requests from cloud servers. Please try TikTok, Instagram, or Facebook videos instead.''"

definition downloadYouTube :: "world \<Rightarrow> jsstring \<Rightarrow> jsval \<Rightarrow> reply io" where
  "downloadYouTube w url quality =
     (case downloadYouTube_try w url quality of
        (cs, Inl e) \<Rightarrow> (cs, Inl (Error youtube_unavailable))
      | (cs, Inr r) \<Rightarrow> (cs, Inr r))"

text \<open>
  The link that \<open>downloadFacebook\<close> picks: the \<open>link\<close> of the first entry whose \<open>quality\<close>
  is \<open>"hd"\<close> if there is one, else the \<open>link\<close> of the first entry; the initial \<open>""\<close> when
  \<open>data.links\<close> is absent or empty.
\<close>

definition hd_or_first_link :: "json_data \<Rightarrow> jsstring option" where
  "hd_or_first_link d =
     (case data_links d of
        None \<Rightarrow> Some []
      | Some [] \<Rightarrow> Some []
      | Some (l # ls) \<Rightarrow>
          (case find (\<lambda>l. link_quality l = Some (js ''hd'')) (l # ls) of
             Some hdLink \<Rightarrow> link_link hdLink
           | None \<Rightarrow> link_link l))"

text \<open>
  The \<open>try\<close> block shared in shape by \<open>downloadTikTok\<close>, \<open>downloadInstagram\<close> and
  \<open>downloadFacebook\<close>; they differ in how the link is picked and in the file name.
\<close>

definition download_try ::
  "(json_data \<Rightarrow> jsstring option) \<Rightarrow> jsstring \<Rightarrow> world \<Rightarrow> jsstring \<Rightarrow> reply io" where
  "download_try pick filename w url =
     (case fetchFromRapidAPI w url of
        (cs, Inl e) \<Rightarrow> (cs, Inl e)
      | (cs, Inr d) \<Rightarrow>
          if falsy (pick d) then (cs, Inl (Error (js ''No video link found from RapidAPI'')))
          else
            (case streamVideo w (the (pick d)) filename of
               (cs', r) \<Rightarrow> (cs @ cs', r)))"

definition downloadTikTok_try :: "world \<Rightarrow> jsstring \<Rightarrow> reply io" where
  "downloadTikTok_try = download_try first_link (js ''tiktok_video.mp4'')"

definition downloadInstagram_try :: "world \<Rightarrow> jsstring \<Rightarrow> reply io" where
  "downloadInstagram_try = download_try first_link (js ''instagram_video.mp4'')"

definition downloadFacebook_try :: "world \<Rightarrow> jsstring \<Rightarrow> reply io" where
  "downloadFacebook_try = download_try hd_or_first_link (js ''facebook_video.mp4'')"

definition downloadTikTok :: "world \<Rightarrow> jsstring \<Rightarrow> reply io" where
  "downloadTikTok w url =
     (case downloadTikTok_try w url of
        (cs, Inl e) \<Rightarrow> (cs, Inl (Error (js ''Failed to download TikTok video via RapidAPI'')))
      | (cs, Inr r) \<Rightarrow> (cs, Inr r))"

definition downloadInstagram :: "world \<Rightarrow> jsstring \<Rightarrow> reply io" where
  "downloadInstagram w url =
     (case downloadInstagram_try w url of
        (cs, Inl e) \<Rightarrow> (cs, Inl (Error (js ''Failed to download Instagram video via RapidAPI'')))
      | (cs, Inr r) \<Rightarrow> (cs, Inr r))"

definition downloadFacebook :: "world \<Rightarrow> jsstring \<Rightarrow> reply io" where
  "downloadFacebook w url =
     (case downloadFacebook_try w url of
        (cs, Inl e) \<Rightarrow> (cs, Inl (Error (js ''Failed to download Facebook video via RapidAPI'')))
      | (cs, Inr r) \<Rightarrow> (cs, Inr r))"

definition download_reply :: "reply io \<Rightarrow> call list \<times> reply" where
  "download_reply r =
     (case r of
        (cs, Inl e) \<Rightarrow> (cs, JsonMessage 500 (message e))
      | (cs, Inr response) \<Rightarrow> (cs, response))"

text \<open>The default \<open>quality = "720p"\<close> of the destructuring applies to \<open>undefined\<close> only.\<close>

definition default_quality :: "jsval \<Rightarrow> jsval" where
  "default_quality q = (case q of JUndefined \<Rightarrow> JStr (js ''720p'') | _ \<Rightarrow> q)"

definition POST_download :: "world \<Rightarrow> request_body \<Rightarrow> call list \<times> reply" where
  "POST_download w body =
     (case body of
        Unreadable e \<Rightarrow> ([], JsonMessage 500 (message e))
      | Body u q \<Rightarrow>
          (case u of
             JStr url \<Rightarrow>
               if url = [] then ([], JsonMessage 400 (js ''URL is required''))
               else
                 (case detectPlatform url of
                    YouTube \<Rightarrow> download_reply (downloadYouTube w url (default_quality q))
                  | TikTok \<Rightarrow> download_reply (downloadTikTok w url)
                  | Instagram \<Rightarrow> download_reply (downloadInstagram w url)
                  | Facebook \<Rightarrow> download_reply (downloadFacebook w url)
                  | Unknown \<Rightarrow> ([], JsonMessage 400 (js ''Unsupported platform'')))
           | _ \<Rightarrow> ([], JsonMessage 400 (js ''URL is required''))))"

section \<open>Example worlds\<close>

text \<open>
  Concrete worlds on which the theorems below are run. In \<open>offline\<close> every call to the
  outside fails and no API key is configured. \<open>online f g\<close> answers \<open>fetch\<close> by \<open>f\<close> and
  \<open>ytdl.getInfo\<close> by \<open>g\<close>; its library keeps every format and streams one chunk. The
  engine of both sorts by stable insertion.
\<close>

fun negative :: "jsnum \<Rightarrow> bool" where
  "negative (Num x) = (x < 0)"
| "negative NegInfinity = True"
| "negative x = False"

fun insert_sorted :: "('a \<Rightarrow> 'a \<Rightarrow> jsnum) \<Rightarrow> 'a \<Rightarrow> 'a list \<Rightarrow> 'a list" where
  "insert_sorted compare x [] = [x]"
| "insert_sorted compare x (y # ys) =
     (if negative (compare x y) then x # y # ys else y # insert_sorted compare x ys)"

definition insertion_sort :: "('a \<Rightarrow> 'a \<Rightarrow> jsnum) \<Rightarrow> 'a list \<Rightarrow> 'a list" where
  "insertion_sort compare xs = foldl (\<lambda>acc x. insert_sorted compare x acc) [] xs"

definition offline :: world where
  "offline =
     \<lparr>env_RAPIDAPI_KEY = None,
      fetch = (\<lambda>req. Inl (Error (js ''fetch failed''))),
      ytdl_getInfo = (\<lambda>url. Inl (Error (js ''Status code: 429''))),
      ytdl_filterFormats = (\<lambda>fs. fs),
      ytdl_download = (\<lambda>url f. [StreamError (Error (js ''Status code: 403''))]),
      array_sort = insertion_sort\<rparr>"

definition online ::
  "(request \<Rightarrow> error + response) \<Rightarrow> (jsstring \<Rightarrow> error + videoInfo) \<Rightarrow> world" where
  "online f g =
     \<lparr>env_RAPIDAPI_KEY = Some (js ''configured-key''),
      fetch = f,
      ytdl_getInfo = g,
      ytdl_filterFormats = (\<lambda>fs. fs),
      ytdl_download = (\<lambda>url f. [Chunk [0, 1, 2], End]),
      array_sort = insertion_sort\<rparr>"

definition ok_response :: "json_data \<Rightarrow> response" where
  "ok_response d =
     \<lparr>res_ok = True, res_statusText = js ''OK'', res_content_length = Some (js ''3''),
      res_json = Inr d, res_body = [Chunk [0, 1, 2], End]\<rparr>"



text \<open>
  Two replies of the aggregation API: one with an \<open>sd\<close> link before an \<open>hd\<close> link, and
  one whose only entry is tagged \<open>hd\<close> and has an empty link.
\<close>

definition two_links :: json_data where
  "two_links =
     \<lparr>data_title = None, data_picture = None,
      data_links = Some [\<lparr>link_quality = Some (js ''sd''), link_link = Some (js ''https://cdn.example/sd.mp4'')\<rparr>,
                         \<lparr>link_quality = Some (js ''hd''), link_link = Some (js ''https://cdn.example/hd.mp4'')\<rparr>]\<rparr>"

definition hd_without_link :: json_data where
  "hd_without_link =
     \<lparr>data_title = None, data_picture = None,
      data_links = Some [\<lparr>link_quality = Some (js ''hd''), link_link = Some []\<rparr>]\<rparr>"

section \<open>The client store and the handlers that drive it\<close>

text \<open>
  \<open>VideoInfo\<close> of \<open>lib/store.ts\<close>. \<open>selectedQuality\<close> and \<open>error\<close> can be \<open>undefined\<close>
  at run time and are options. The status \<open>"error"\<close> is \<open>Failed\<close> here.
\<close>

datatype status = Pending | Analyzing | Ready | Downloading | Completed | Failed

record VideoInfo =
  vi_id :: jsstring
  vi_url :: jsstring
  vi_platform :: platform
  vi_title :: jsstring
  vi_thumbnail :: jsstring
  vi_duration :: jsnum
  vi_qualities :: "jsstring list"
  vi_selectedQuality :: "jsstring option"
  vi_status :: status
  vi_progress :: int
  vi_error :: "jsstring option"

text \<open>\<open>Partial<VideoInfo>\<close>: each key is present (\<open>Some\<close>) or not.\<close>

record VideoUpdates =
  u_id :: "jsstring option"
  u_url :: "jsstring option"
  u_platform :: "platform option"
  u_title :: "jsstring option"
  u_thumbnail :: "jsstring option"
  u_duration :: "jsnum option"
  u_qualities :: "jsstring list option"
  u_selectedQuality :: "jsstring option option"
  u_status :: "status option"
  u_progress :: "int option"
  u_error :: "jsstring option option"

definition no_updates :: VideoUpdates where
  "no_updates =
     \<lparr>u_id = None, u_url = None, u_platform = None, u_title = None, u_thumbnail = None,
      u_duration = None, u_qualities = None, u_selectedQuality = None, u_status = None,
      u_progress = None, u_error = None\<rparr>"

text \<open>The spread \<open>{ ...v, ...updates }\<close>.\<close>

definition spread :: "VideoInfo \<Rightarrow> VideoUpdates \<Rightarrow> VideoInfo" where
  "spread v u =
     \<lparr>vi_id = (case u_id u of None \<Rightarrow> vi_id v | Some x \<Rightarrow> x),
      vi_url = (case u_url u of None \<Rightarrow> vi_url v | Some x \<Rightarrow> x),
      vi_platform = (case u_platform u of None \<Rightarrow> vi_platform v | Some x \<Rightarrow> x),
      vi_title = (case u_title u of None \<Rightarrow> vi_title v | Some x \<Rightarrow> x),
      vi_thumbnail = (case u_thumbnail u of None \<Rightarrow> vi_thumbnail v | Some x \<Rightarrow> x),
      vi_duration = (case u_duration u of None \<Rightarrow> vi_duration v | Some x \<Rightarrow> x),
      vi_qualities = (case u_qualities u of None \<Rightarrow> vi_qualities v | Some x \<Rightarrow> x),
      vi_selectedQuality =
        (case u_selectedQuality u of None \<Rightarrow> vi_selectedQuality v | Some x \<Rightarrow> x),
      vi_status = (case u_status u of None \<Rightarrow> vi_status v | Some x \<Rightarrow> x),
      vi_progress = (case u_progress u of None \<Rightarrow> vi_progress v | Some x \<Rightarrow> x),
      vi_error = (case u_error u of None \<Rightarrow> vi_error v | Some x \<Rightarrow> x)\<rparr>"

text \<open>
  The four operations of the store, on its list \<open>videos\<close>. \<open>addVideo\<close> takes the result
  of \<open>crypto.randomUUID()\<close> as its argument \<open>vid\<close>.
\<close>

definition addVideo :: "jsstring \<Rightarrow> jsstring \<Rightarrow> VideoInfo list \<Rightarrow> VideoInfo list" where
  "addVideo url vid vs =
     vs @ [\<lparr>vi_id = vid, vi_url = url, vi_platform = detectPlatform_store url, vi_title = [],
            vi_thumbnail = [], vi_duration = Num 0, vi_qualities = [],
            vi_selectedQuality = Some (js ''720p''), vi_status = Pending, vi_progress = 0,
            vi_error = None\<rparr>]"

definition updateVideo :: "jsstring \<Rightarrow> VideoUpdates \<Rightarrow> VideoInfo list \<Rightarrow> VideoInfo list" where
  "updateVideo vid updates vs = map (\<lambda>v. if vi_id v = vid then spread v updates else v) vs"

definition removeVideo :: "jsstring \<Rightarrow> VideoInfo list \<Rightarrow> VideoInfo list" where
  "removeVideo vid vs = filter (\<lambda>v. vi_id v \<noteq> vid) vs"

definition clearCompleted :: "VideoInfo list \<Rightarrow> VideoInfo list" where
  "clearCompleted vs = filter (\<lambda>v. vi_status v \<noteq> Completed) vs"

text \<open>
  The handlers of \<open>url-input.tsx\<close> and \<open>video-card.tsx\<close> run on one thread and yield at
  each \<open>await\<close>. They are modelled as events on a state that holds the store and, for
  the handlers that are under way, where they stand:
  \<^item> \<open>added\<close>: \<open>handleAnalyze\<close> has called \<open>addVideo\<close> and is about to set \<open>analyzing\<close>;
  \<^item> \<open>awaiting\<close>: \<open>handleAnalyze\<close> awaits the answer of \<open>/api/analyze\<close> (\<open>isAnalyzing\<close> is
    true from \<open>addVideo\<close> until the handler ends, and the input is disabled meanwhile);
  \<^item> \<open>downloading\<close>: the cards whose \<open>handleDownload\<close> is under way (\<open>isDownloading\<close>);
  \<^item> \<open>used_ids\<close>: the UUIDs drawn so far; \<open>crypto.randomUUID()\<close> draws a new one each
    time.
  An event that meets none of its handler's conditions leaves the state as it is: the
  handler returns early, or the button is not on the page.
\<close>

record ui =
  videos :: "VideoInfo list"
  used_ids :: "jsstring list"
  added :: "jsstring option"
  awaiting :: "jsstring option"
  downloading :: "jsstring list"

definition init :: ui where
  "init = \<lparr>videos = [], used_ids = [], added = None, awaiting = None, downloading = []\<rparr>"

datatype event =
    Submit jsstring jsstring
  | MarkAnalyzing
  | AnalyzeOk metadata
  | AnalyzeFailed jsstring
  | ClickDownload jsstring
  | Progress jsstring int
  | DownloadOk jsstring
  | DownloadFailed jsstring jsstring
  | ChangeQuality jsstring jsstring
  | Remove jsstring
  | ClearCompleted

text \<open>
  \<open>data.qualities.includes("720p") ? "720p" : data.qualities[0]\<close>; the latter is
  \<open>undefined\<close> on an empty list.
\<close>

definition pick_quality :: "jsstring list \<Rightarrow> jsstring option" where
  "pick_quality qs =
     (if js ''720p'' \<in> set qs then Some (js ''720p'')
      else case qs of [] \<Rightarrow> None | q # _ \<Rightarrow> Some q)"

text \<open>
  \<open>Submit url vid\<close> is \<open>handleAnalyze\<close> from its checks to \<open>addVideo\<close>; \<open>MarkAnalyzing\<close> is
  its \<open>updateVideo(videoId, {status: "analyzing"})\<close>; \<open>AnalyzeOk\<close> and \<open>AnalyzeFailed\<close> are
  its two ends. \<open>ClickDownload\<close> is the start of \<open>handleDownload\<close>, whose button is
  rendered only for a video that is \<open>ready\<close> and is disabled while \<open>isDownloading\<close>;
  \<open>Progress\<close>, \<open>DownloadOk\<close> and \<open>DownloadFailed\<close> are its later calls of \<open>updateVideo\<close>.
  \<open>ChangeQuality\<close> is \<open>handleQualityChange\<close> (the selector is rendered for a \<open>ready\<close>
  video), \<open>Remove\<close> the remove button, \<open>ClearCompleted\<close> the button of the queue.
\<close>

fun fire :: "event \<Rightarrow> ui \<Rightarrow> ui" where
  "fire (Submit url vid) s =
     (if (\<exists>c \<in> set url. \<not> in_ranges space_chars c)
         \<and> detectPlatform_store url \<noteq> Unknown
         \<and> length (videos s) < 5
         \<and> \<not> (\<exists>v \<in> set (videos s). vi_url v = url)
         \<and> added s = None \<and> awaiting s = None
         \<and> vid \<notin> set (used_ids s)
      then s\<lparr>videos := addVideo url vid (videos s), used_ids := vid # used_ids s, added := Some vid\<rparr>
      else s)"
| "fire MarkAnalyzing s =
     (case added s of
        None \<Rightarrow> s
      | Some videoId \<Rightarrow>
          s\<lparr>videos := updateVideo videoId (no_updates\<lparr>u_status := Some Analyzing\<rparr>) (videos s),
            added := None, awaiting := Some videoId\<rparr>)"
| "fire (AnalyzeOk data) s =
     (case awaiting s of
        None \<Rightarrow> s
      | Some videoId \<Rightarrow>
          s\<lparr>videos :=
              updateVideo videoId
                (no_updates\<lparr>u_title := Some (md_title data),
                   u_thumbnail := Some (md_thumbnail data),
                   u_duration := Some (md_duration data),
                   u_qualities := Some (md_qualities data),
                   u_selectedQuality := Some (pick_quality (md_qualities data)),
                   u_status := Some Ready\<rparr>)
                (videos s),
            awaiting := None\<rparr>)"
| "fire (AnalyzeFailed msg) s =
     (case awaiting s of
        None \<Rightarrow> s
      | Some videoId \<Rightarrow>
          s\<lparr>videos :=
              updateVideo videoId (no_updates\<lparr>u_status := Some Failed, u_error := Some (Some msg)\<rparr>)
                (videos s),
            awaiting := None\<rparr>)"
| "fire (ClickDownload vid) s =
     (if (\<exists>v \<in> set (videos s). vi_id v = vid \<and> vi_status v = Ready) \<and> vid \<notin> set (downloading s)
      then s\<lparr>videos :=
               updateVideo vid (no_updates\<lparr>u_status := Some Downloading, u_progress := Some 0\<rparr>)
                 (videos s),
             downloading := vid # downloading s\<rparr>
      else s)"
| "fire (Progress vid p) s =
     (if vid \<in> set (downloading s)
      then s\<lparr>videos := updateVideo vid (no_updates\<lparr>u_progress := Some p\<rparr>) (videos s)\<rparr>
      else s)"
| "fire (DownloadOk vid) s =
     (if vid \<in> set (downloading s)
      then s\<lparr>videos :=
               updateVideo vid (no_updates\<lparr>u_status := Some Completed, u_progress := Some 100\<rparr>)
                 (videos s),
             downloading := removeAll vid (downloading s)\<rparr>
      else s)"
| "fire (DownloadFailed vid msg) s =
     (if vid \<in> set (downloading s)
      then s\<lparr>videos :=
               updateVideo vid (no_updates\<lparr>u_status := Some Failed, u_error := Some (Some msg)\<rparr>)
                 (videos s),
             downloading := removeAll vid (downloading s)\<rparr>
      else s)"
| "fire (ChangeQuality vid q) s =
     (if \<exists>v \<in> set (videos s). vi_id v = vid \<and> vi_status v = Ready
      then s\<lparr>videos := updateVideo vid (no_updates\<lparr>u_selectedQuality := Some (Some q)\<rparr>) (videos s)\<rparr>
      else s)"
| "fire (Remove vid) s = s\<lparr>videos := removeVideo vid (videos s)\<rparr>"
| "fire ClearCompleted s = s\<lparr>videos := clearCompleted (videos s)\<rparr>"

text \<open>The states that a sequence of events goes through, from a given state.\<close>

fun states :: "event list \<Rightarrow> ui \<Rightarrow> ui list" where
  "states [] s = [s]"
| "states (e # es) s = s # states es (fire e s)"

text \<open>
  What is observed of one video: its status in the store, or nothing when the store has
  no video of that vid. \<open>history es vid\<close> is what is observed of \<open>vid\<close> along the events
  \<open>es\<close> from the initial state.
\<close>

definition observe :: "ui \<Rightarrow> jsstring \<Rightarrow> status option" where
  "observe s vid = map_option vi_status (find (\<lambda>v. vi_id v = vid) (videos s))"

definition history :: "event list \<Rightarrow> jsstring \<Rightarrow> status option list" where
  "history es vid = map (\<lambda>s. observe s vid) (states es init)"

text \<open>The transitions of the state machine of the specification.\<close>

fun allowed :: "status \<Rightarrow> status \<Rightarrow> bool" where
  "allowed Pending Analyzing = True"
| "allowed Analyzing Ready = True"
| "allowed Analyzing Failed = True"
| "allowed Ready Downloading = True"
| "allowed Downloading Completed = True"
| "allowed Downloading Failed = True"
| "allowed a b = False"

text \<open>
  One step of what is observed: a video appears as \<open>pending\<close>, keeps its status, takes a
  transition, or is removed from the queue.
\<close>

fun status_step :: "status option \<Rightarrow> status option \<Rightarrow> bool" where
  "status_step None None = True"
| "status_step None (Some b) = (b = Pending)"
| "status_step (Some a) None = True"
| "status_step (Some a) (Some b) = (a = b \<or> allowed a b)"

text \<open>
  What holds of every state that the events reach: the ids in the store are distinct and
  were drawn, and a handler under way for an id finds the video of that id, if it is
  still in the store, in the status the handler left it in.
\<close>

definition has_status :: "ui \<Rightarrow> jsstring \<Rightarrow> status \<Rightarrow> bool" where
  "has_status s vid st = (\<forall>v \<in> set (videos s). vi_id v = vid \<longrightarrow> vi_status v = st)"

definition invariant :: "ui \<Rightarrow> bool" where
  "invariant s =
     (distinct (map vi_id (videos s))
      \<and> (\<forall>v \<in> set (videos s). vi_id v \<in> set (used_ids s))
      \<and> (\<forall>vid. added s = Some vid \<longrightarrow> vid \<in> set (used_ids s) \<and> has_status s vid Pending)
      \<and> (\<forall>vid. awaiting s = Some vid \<longrightarrow> vid \<in> set (used_ids s) \<and> has_status s vid Analyzing)
      \<and> (\<forall>vid \<in> set (downloading s). vid \<in> set (used_ids s) \<and> has_status s vid Downloading))"

section \<open>Verification\<close>

subsection \<open>The matcher on literal patterns\<close>

lemma upper_eq_iff_lower_eq: "upper c = upper p \<longleftrightarrow> lower c = lower p"
proof -
  have "unat (upper c) = (if 97 \<le> unat c \<and> unat c \<le> 122 then unat c - 32 else unat c)" for c
    unfolding upper_def by (simp add: word_le_nat_alt unat_sub)
  moreover have "unat (lower c) = (if 65 \<le> unat c \<and> unat c \<le> 90 then unat c + 32 else unat c)" for c
    unfolding lower_def by (simp add: word_le_nat_alt unat_word_ariths)
  ultimately have "unat (upper c) = unat (upper p) \<longleftrightarrow> unat (lower c) = unat (lower p)"
    by (simp; arith)
  then show ?thesis by (simp only: word_unat_eq_iff)
qed

lemma rmatch_lits_iff:
  "rmatch True (lits p) s \<noteq> [] \<longleftrightarrow> prefix (map lower p) (map lower s)"
proof (induction p arbitrary: s)
  case Nil
  show ?case by simp
next
  case (Cons c cs)
  show ?case
  proof (cases s)
    case Nil
    then show ?thesis by simp
  next
    case (Cons d ds)
    then show ?thesis
      using Cons.IH [of ds] by (simp add: upper_eq_iff_lower_eq eq_commute [of "lower c"])
  qed
qed

lemma test_Cons: "test i r (c # cs) \<longleftrightarrow> rmatch i r (c # cs) \<noteq> [] \<or> test i r cs"
  by (simp add: test_def split: list.splits)

lemma test_Nil: "test i r [] \<longleftrightarrow> rmatch i r [] \<noteq> []"
  by (simp add: test_def split: list.splits)

lemma test_Alt: "test i (Alt a b) s \<longleftrightarrow> test i a s \<or> test i b s"
  by (induction s) (auto simp: test_Cons test_Nil)

lemma test_lits: "test True (lits p) s \<longleftrightarrow> sublist (map lower p) (map lower s)"
proof (induction s)
  case Nil
  show ?case using rmatch_lits_iff [of p "[]"] by (simp add: test_Nil)
next
  case (Cons c cs)
  show ?case using rmatch_lits_iff [of p "c # cs"] Cons.IH
    by (simp add: test_Cons sublist_Cons_right)
qed

lemma test_Seq_left: "test i (Seq a b) s \<Longrightarrow> test i a s"
  by (induction s) (auto simp: test_Cons test_Nil)

subsection \<open>The platform classifier of the API routes\<close>

lemma lower_lits:
  "map lower (js ''youtube.com'') = js ''youtube.com''"
  "map lower (js ''youtu.be'') = js ''youtu.be''"
  "map lower (js ''tiktok.com'') = js ''tiktok.com''"
  "map lower (js ''instagram.com'') = js ''instagram.com''"
  "map lower (js ''facebook.com'') = js ''facebook.com''"
  "map lower (js ''fb.watch'') = js ''fb.watch''"
  by (simp_all add: js_def lower_def)

lemma detectPlatform_sublist:
  "detectPlatform url =
     (if sublist (js ''youtube.com'') (map lower url) \<or> sublist (js ''youtu.be'') (map lower url)
      then YouTube
      else if sublist (js ''tiktok.com'') (map lower url) then TikTok
      else if sublist (js ''instagram.com'') (map lower url) then Instagram
      else if sublist (js ''facebook.com'') (map lower url) \<or> sublist (js ''fb.watch'') (map lower url)
      then Facebook
      else Unknown)"
  unfolding detectPlatform_def test_Alt test_lits lower_lits by (rule refl)

text \<open>
  Claim C1. \<open>detectPlatform\<close> is a total function of the URL alone (a HOL function: it
  has a value on every string, the same value on the same string, and no effect), and it
  applies the rules in order. Written out: with \<open>u\<close> the URL with its ASCII letters in
  lower case, the answer is \<open>youtube\<close> if \<open>u\<close> contains \<open>youtube.com\<close> or \<open>youtu.be\<close>, else
  \<open>tiktok\<close> if it contains \<open>tiktok.com\<close>, else \<open>instagram\<close> if it contains
  \<open>instagram.com\<close>, else \<open>facebook\<close> if it contains \<open>facebook.com\<close> or \<open>fb.watch\<close>, else
  \<open>unknown\<close>. The left-hand side runs the regular expressions of the source on the
  matcher; the right-hand side is plain containment of text.
\<close>

theorem detectPlatform_rules:
  "detectPlatform url =
     (let u = map lower url in
      if sublist (js ''youtube.com'') u \<or> sublist (js ''youtu.be'') u then YouTube
      else if sublist (js ''tiktok.com'') u then TikTok
      else if sublist (js ''instagram.com'') u then Instagram
      else if sublist (js ''facebook.com'') u \<or> sublist (js ''fb.watch'') u then Facebook
      else Unknown)"
  unfolding Let_def by (rule detectPlatform_sublist)

theorem detectPlatform_rules_witness:
  "detectPlatform (js ''https://WWW.YouTube.com/watch?v=dQw4w9WgXcQ'') = YouTube"
proof -
  have "sublist (js ''youtube.com'') (map lower (js ''https://WWW.YouTube.com/watch?v=dQw4w9WgXcQ''))"
    by code_simp
  then show ?thesis
    using detectPlatform_rules [of "js ''https://WWW.YouTube.com/watch?v=dQw4w9WgXcQ''"]
    by (simp add: Let_def)
qed

subsection \<open>The client classifier against the API routes\<close>

lemma test_lits_weaken:
  assumes "test True (lits p) s" and "sublist (map lower q) (map lower p)"
  shows "sublist (map lower q) (map lower s)"
  using assms sublist_order.order_trans unfolding test_lits by blast

lemma store_youtube:
  assumes "test True (Alt (Seq (lits (js ''youtube.com/'')) (Alt (lits (js ''watch?v='')) (lits (js ''shorts/''))))
            (lits (js ''youtu.be/''))) url"
  shows "sublist (js ''youtube.com'') (map lower url) \<or> sublist (js ''youtu.be'') (map lower url)"
proof -
  have a: "sublist (map lower (js ''youtube.com'')) (map lower (js ''youtube.com/''))"
    and b: "sublist (map lower (js ''youtu.be'')) (map lower (js ''youtu.be/''))"
    by code_simp+
  from assms have "test True (lits (js ''youtube.com/'')) url \<or> test True (lits (js ''youtu.be/'')) url"
    unfolding test_Alt using test_Seq_left by blast
  then show ?thesis
    using test_lits_weaken [OF _ a] test_lits_weaken [OF _ b] unfolding lower_lits by blast
qed

lemma store_tiktok:
  assumes "test True (Alt (Seq (lits (js ''tiktok.com/@''))
               (Seq (Plus (Cls (word_chars @ [(0x2E, 0x2E), (0x2D, 0x2D)]))) (lits (js ''/video/''))))
            (lits (js ''vm.tiktok.com/''))) url"
  shows "sublist (js ''tiktok.com'') (map lower url)"
proof -
  have a: "sublist (map lower (js ''tiktok.com'')) (map lower (js ''tiktok.com/@''))"
    and b: "sublist (map lower (js ''tiktok.com'')) (map lower (js ''vm.tiktok.com/''))"
    by code_simp+
  from assms have "test True (lits (js ''tiktok.com/@'')) url \<or> test True (lits (js ''vm.tiktok.com/'')) url"
    unfolding test_Alt using test_Seq_left by blast
  then show ?thesis
    using test_lits_weaken [OF _ a] test_lits_weaken [OF _ b] unfolding lower_lits by blast
qed

lemma store_instagram:
  assumes "test True (Seq (lits (js ''instagram.com/''))
          (Seq (Alt (lits (js ''p'')) (Alt (lits (js ''reel'')) (lits (js ''reels''))))
               (lits (js ''/'')))) url"
  shows "sublist (js ''instagram.com'') (map lower url)"
proof -
  have a: "sublist (map lower (js ''instagram.com'')) (map lower (js ''instagram.com/''))"
    by code_simp
  from assms have "test True (lits (js ''instagram.com/'')) url"
    using test_Seq_left by blast
  then show ?thesis
    using test_lits_weaken [OF _ a] unfolding lower_lits by blast
qed

lemma store_facebook:
  assumes "test True (Alt (Seq (lits (js ''facebook.com/'')) (Seq (Star Dot) (lits (js ''/videos/''))))
            (lits (js ''fb.watch/''))) url"
  shows "sublist (js ''facebook.com'') (map lower url) \<or> sublist (js ''fb.watch'') (map lower url)"
proof -
  have a: "sublist (map lower (js ''facebook.com'')) (map lower (js ''facebook.com/''))"
    and b: "sublist (map lower (js ''fb.watch'')) (map lower (js ''fb.watch/''))"
    by code_simp+
  from assms have "test True (lits (js ''facebook.com/'')) url \<or> test True (lits (js ''fb.watch/'')) url"
    unfolding test_Alt using test_Seq_left by blast
  then show ?thesis
    using test_lits_weaken [OF _ a] test_lits_weaken [OF _ b] unfolding lower_lits by blast
qed

lemma detectPlatform_store_cases:
  "detectPlatform_store url =
    (if test True (snd (snd (patterns ! 0))) url then YouTube
     else if test True (snd (snd (patterns ! 1))) url then TikTok
     else if test True (snd (snd (patterns ! 2))) url then Instagram
     else if test True (snd (snd (patterns ! 3))) url then Facebook
     else Unknown)"
  by (simp add: detectPlatform_store_def patterns_def)

text \<open>
  Claim C10, as stated, fails: the client classifier's answer need not be the routes'
  answer. A URL on \<open>youtube.com\<close> that is neither a watch nor a shorts link and that
  carries \<open>vm.tiktok.com/\<close> in its query is \<open>tiktok\<close> to the client (its YouTube pattern
  does not match, its TikTok pattern does) and \<open>youtube\<close> to the routes (their first rule
  matches).
\<close>

theorem store_refines_routes_counterexample:
  "\<not> (detectPlatform_store (js ''https://www.youtube.com/redirect?q=https://vm.tiktok.com/ZM123/'') \<noteq> Unknown
      \<longrightarrow> detectPlatform (js ''https://www.youtube.com/redirect?q=https://vm.tiktok.com/ZM123/'')
          = detectPlatform_store (js ''https://www.youtube.com/redirect?q=https://vm.tiktok.com/ZM123/''))"
  by code_simp

text \<open>
  Claim C10, amended. If the client classifier returns a platform \<open>p\<close> other than
  \<open>unknown\<close>, the routes' classifier returns \<open>p\<close> or a platform whose rule is tested
  before that of \<open>p\<close> (in the order youtube, tiktok, instagram, facebook), and so never
  \<open>unknown\<close>; a client \<open>youtube\<close> is always a \<open>youtube\<close> of the routes.
\<close>

theorem store_refines_routes:
  assumes "detectPlatform_store url = p" and "p \<noteq> Unknown"
  shows "rule_index (detectPlatform url) \<le> rule_index p"
proof (cases p)
  case YouTube
  with assms have "test True (snd (snd (patterns ! 0))) url"
    unfolding detectPlatform_store_cases by (simp split: if_splits)
  then have "sublist (js ''youtube.com'') (map lower url) \<or> sublist (js ''youtu.be'') (map lower url)"
    by (intro store_youtube) (simp add: patterns_def)
  then show ?thesis using YouTube by (simp add: detectPlatform_sublist)
next
  case TikTok
  with assms have "test True (snd (snd (patterns ! 1))) url"
    unfolding detectPlatform_store_cases by (simp split: if_splits)
  then have "sublist (js ''tiktok.com'') (map lower url)"
    by (intro store_tiktok) (simp add: patterns_def)
  then show ?thesis using TikTok by (simp add: detectPlatform_sublist)
next
  case Instagram
  with assms have "test True (snd (snd (patterns ! 2))) url"
    unfolding detectPlatform_store_cases by (simp split: if_splits)
  then have "sublist (js ''instagram.com'') (map lower url)"
    by (intro store_instagram) (simp add: patterns_def)
  then show ?thesis using Instagram by (simp add: detectPlatform_sublist)
next
  case Facebook
  with assms have "test True (snd (snd (patterns ! 3))) url"
    unfolding detectPlatform_store_cases by (simp split: if_splits)
  then have "sublist (js ''facebook.com'') (map lower url) \<or> sublist (js ''fb.watch'') (map lower url)"
    by (intro store_facebook) (simp add: patterns_def)
  then show ?thesis using Facebook by (auto simp add: detectPlatform_sublist)
next
  case Unknown
  with assms show ?thesis by simp
qed

theorem store_refines_routes_witness:
  "detectPlatform_store (js ''https://vm.tiktok.com/ABC123'') = TikTok \<and> TikTok \<noteq> Unknown
   \<and> rule_index (detectPlatform (js ''https://vm.tiktok.com/ABC123'')) \<le> rule_index TikTok"
proof -
  have h: "detectPlatform_store (js ''https://vm.tiktok.com/ABC123'') = TikTok"
    by code_simp
  show ?thesis using h store_refines_routes [OF h] by simp
qed

text \<open>
  The converse fails, as the claim says: the routes accept URLs that the client calls
  \<open>unknown\<close>.
\<close>

lemma routes_not_refined_by_store:
  "detectPlatform (js ''https://www.youtube.com/'') = YouTube
   \<and> detectPlatform_store (js ''https://www.youtube.com/'') = Unknown"
  by code_simp

subsection \<open>Unsupported platforms\<close>

text \<open>
  Claim C2. When the URL of the request body is classified \<open>unknown\<close>, both routes answer
  with status 400 and a message, and the list of calls to the outside is empty: no
  extractor ran and nothing was fetched. The answer holds in every world.
\<close>

theorem unknown_platform_rejected:
  assumes "detectPlatform url = Unknown"
  shows "POST_analyze w (Body (JStr url) q) =
           ([], JsonMessage 400
                  (if url = [] then js ''URL is required''
                   else js ''Unsupported platform. Use YouTube, TikTok, Instagram, or Facebook.''))
         \<and> POST_download w (Body (JStr url) q) =
           ([], JsonMessage 400
                  (if url = [] then js ''URL is required'' else js ''Unsupported platform''))"
  using assms by (simp add: POST_analyze_def POST_download_def)

lemma unknown_example: "detectPlatform (js ''https://example.com/video'') = Unknown"
  by code_simp

theorem unknown_platform_rejected_witness:
  "detectPlatform (js ''https://example.com/video'') = Unknown
   \<and> POST_analyze offline (Body (JStr (js ''https://example.com/video'')) JUndefined) =
       ([], JsonMessage 400 (js ''Unsupported platform. Use YouTube, TikTok, Instagram, or Facebook.''))
   \<and> POST_download offline (Body (JStr (js ''https://example.com/video'')) JUndefined) =
       ([], JsonMessage 400 (js ''Unsupported platform''))"
proof -
  have ne: "js ''https://example.com/video'' \<noteq> []" by (simp add: js_def)
  show ?thesis
    using unknown_example
      unknown_platform_rejected [OF unknown_example, of offline JUndefined] ne
    by simp
qed

subsection \<open>The video id\<close>

lemma mstar_length: "s' \<in> set (mstar i a s) \<Longrightarrow> length s' \<le> length s"
  by (induction s) (auto split: if_splits)

lemma rmatch_Group_Plus:
  assumes "(g, s') \<in> set (rmatch i (Group (Plus a)) s)"
  shows "\<exists>v. g = Some v \<and> v \<noteq> []"
proof (cases s)
  case Nil
  with assms show ?thesis by simp
next
  case (Cons c cs)
  with assms have "s' \<in> set (mstar i a cs)" and g: "g = Some (take (length s - length s') s)"
    by (auto split: if_splits)
  then have "length s' < length s" using mstar_length [of s' i a cs] Cons by simp
  with g Cons show ?thesis by auto
qed

lemma rmatch_Seq_Group_Plus:
  assumes "(g, s') \<in> set (rmatch i (Seq r (Group (Plus a))) s)"
  shows "\<exists>v. g = Some v \<and> v \<noteq> []"
proof -
  from assms obtain g1 s1 g2 where "(g2, s') \<in> set (rmatch i (Group (Plus a)) s1)"
    and g: "g = (case g2 of None \<Rightarrow> g1 | Some x \<Rightarrow> Some x)"
    by (auto simp del: rmatch.simps(6,7) simp add: rmatch.simps(3))
  then show ?thesis using rmatch_Group_Plus by fastforce
qed

lemma exec_Some:
  assumes "exec i r s = Some m"
  shows "\<exists>k. m \<in> set (rmatch i r (drop k s))"
  using assms
proof (induction s)
  case Nil
  then show ?case by (auto split: list.splits)
next
  case (Cons c cs)
  show ?case
  proof (cases "rmatch i r (c # cs)")
    case Nil
    with Cons obtain k where "m \<in> set (rmatch i r (drop k cs))" by auto
    then have "m \<in> set (rmatch i r (drop (Suc k) (c # cs)))" by simp
    then show ?thesis by blast
  next
    case (Cons m' ms)
    with Cons.prems have "m \<in> set (rmatch i r (drop 0 (c # cs)))" by simp
    then show ?thesis by blast
  qed
qed

lemma exec_test: "exec i r s = Some m \<Longrightarrow> test i r s"
  by (simp add: test_def)

lemma exec_Seq_Group_Plus:
  assumes "exec i (Seq r (Group (Plus a))) s = Some m"
  shows "\<exists>v. fst m = Some v \<and> v \<noteq> []"
proof -
  from exec_Some [OF assms] obtain k where "m \<in> set (rmatch i (Seq r (Group (Plus a))) (drop k s))"
    by blast
  then have "(fst m, snd m) \<in> set (rmatch i (Seq r (Group (Plus a))) (drop k s))"
    by (simp only: prod.collapse)
  then show ?thesis by (rule rmatch_Seq_Group_Plus)
qed

lemma first_match_two:
  "first_match [p1, p2] url = Some v \<Longrightarrow>
     (\<exists>m. exec False p1 url = Some m \<and> fst m = Some v)
     \<or> (\<exists>m. exec False p2 url = Some m \<and> fst m = Some v)"
  by (auto split: option.splits)

lemma extractYouTubeId_cases:
  assumes "extractYouTubeId url = Some v"
  obtains m where "exec False watch_pattern url = Some m" "fst m = Some v"
    | m where "exec False shorts_pattern url = Some m" "fst m = Some v"
proof -
  from assms have "first_match [watch_pattern, shorts_pattern] url = Some v"
    by (simp only: extractYouTubeId_def id_patterns_def)
  from first_match_two [OF this] show ?thesis using that by blast
qed

lemma extractYouTubeId_nonempty:
  assumes "extractYouTubeId url = Some v"
  shows "v \<noteq> []"
  using assms
proof (cases rule: extractYouTubeId_cases)
  case (1 m)
  from exec_Seq_Group_Plus [OF 1(1) [unfolded watch_pattern_def]] 1(2) show ?thesis by auto
next
  case (2 m)
  from exec_Seq_Group_Plus [OF 2(1) [unfolded shorts_pattern_def]] 2(2) show ?thesis by auto
qed

lemma rmatch_lits_cs: "rmatch False (lits p) s \<noteq> [] \<Longrightarrow> prefix p s"
proof (induction p arbitrary: s)
  case Nil
  show ?case by simp
next
  case (Cons c cs)
  then show ?case by (cases s) (auto split: if_splits)
qed

lemma rmatch_Seq_left: "rmatch i (Seq a b) s \<noteq> [] \<Longrightarrow> rmatch i a s \<noteq> []"
  by auto

lemma test_lits_cs:
  assumes "test False (lits p) s"
  shows "sublist p s"
  using assms
proof (induction s)
  case Nil
  then show ?case using rmatch_lits_cs [of p "[]"] by (auto simp: test_Nil)
next
  case (Cons c cs)
  then show ?case using rmatch_lits_cs [of p "c # cs"]
    by (auto simp: test_Cons sublist_Cons_right)
qed

lemma test_lits_cs_lower:
  assumes "test False (lits p) s" and "sublist q (map lower p)"
  shows "sublist q (map lower s)"
  using map_mono_sublist [OF test_lits_cs [OF assms(1)], of lower] assms(2)
    sublist_order.order_trans by blast

lemma extractYouTubeId_detectPlatform:
  assumes "extractYouTubeId url = Some v"
  shows "detectPlatform url = YouTube"
proof -
  have a: "sublist (js ''youtube.com'') (map lower (js ''youtube.com/watch?v=''))"
    and b: "sublist (js ''youtu.be'') (map lower (js ''youtu.be/''))"
    and c: "sublist (js ''youtube.com'') (map lower (js ''youtube.com/embed/''))"
    and d: "sublist (js ''youtube.com'') (map lower (js ''youtube.com/v/''))"
    and e: "sublist (js ''youtube.com'') (map lower (js ''youtube.com/shorts/''))"
    by code_simp+
  from assms have "test False watch_pattern url \<or> test False shorts_pattern url"
    by (cases rule: extractYouTubeId_cases) (simp_all only: test_def, simp_all)
  then have "test False (Alt (lits (js ''youtube.com/watch?v=''))
            (Alt (lits (js ''youtu.be/''))
              (Alt (lits (js ''youtube.com/embed/'')) (lits (js ''youtube.com/v/''))))) url
      \<or> test False (lits (js ''youtube.com/shorts/'')) url"
    unfolding watch_pattern_def shorts_pattern_def using test_Seq_left by blast
  then have "test False (lits (js ''youtube.com/watch?v='')) url
      \<or> test False (lits (js ''youtu.be/'')) url
      \<or> test False (lits (js ''youtube.com/embed/'')) url
      \<or> test False (lits (js ''youtube.com/v/'')) url
      \<or> test False (lits (js ''youtube.com/shorts/'')) url"
    by (simp only: test_Alt) blast
  then have "sublist (js ''youtube.com'') (map lower url) \<or> sublist (js ''youtu.be'') (map lower url)"
    using test_lits_cs_lower [OF _ a] test_lits_cs_lower [OF _ b] test_lits_cs_lower [OF _ c]
      test_lits_cs_lower [OF _ d] test_lits_cs_lower [OF _ e] by blast
  then show ?thesis by (auto simp: detectPlatform_sublist)
qed

subsection \<open>The analyze route\<close>

lemma analyzeYouTube_qualities:
  assumes "analyzeYouTube w url = (cs, Inr r)"
  shows "md_qualities r \<noteq> []"
  using assms
  by (auto simp: analyzeYouTube_def analyzeYouTube_oembed_def analyzeYouTube_ytdl_def Let_def
      split: option.splits if_splits sum.splits)

lemma analyzeTikTok_qualities:
  assumes "analyzeTikTok w url = (cs, Inr r)"
  shows "md_qualities r = [js ''HD'', js ''SD'']"
  using assms
  by (auto simp: analyzeTikTok_def split: prod.splits sum.splits if_splits)

lemma analyzeInstagram_qualities:
  assumes "analyzeInstagram w url = (cs, Inr r)"
  shows "md_qualities r = [js ''HD'', js ''SD'']"
  using assms
  by (auto simp: analyzeInstagram_def split: prod.splits sum.splits if_splits)

lemma analyzeFacebook_qualities:
  assumes "analyzeFacebook w url = (cs, Inr r)"
  shows "md_qualities r = [js ''HD'', js ''SD'']"
  using assms
  by (auto simp: analyzeFacebook_def split: prod.splits sum.splits if_splits)

lemma analyze_reply_metadata:
  "analyze_reply x = (cs, JsonMetadata r) \<longleftrightarrow> x = (cs, Inr r)"
  by (cases x) (auto simp: analyze_reply_def split: sum.splits)

text \<open>
  Claim C3. Whenever the analyze route answers with metadata (status 200), the list of
  qualities in it is not empty. On the library path of YouTube the list found is
  replaced by a default when it is empty; every other path returns a fixed non-empty
  list.
\<close>

theorem analyze_qualities_nonempty:
  assumes "POST_analyze w body = (cs, JsonMetadata r)"
  shows "md_qualities r \<noteq> []"
proof -
  from assms obtain url where
    "analyzeYouTube w url = (cs, Inr r) \<or> analyzeTikTok w url = (cs, Inr r)
     \<or> analyzeInstagram w url = (cs, Inr r) \<or> analyzeFacebook w url = (cs, Inr r)"
    by (auto simp: POST_analyze_def analyze_reply_metadata
        split: request_body.splits jsval.splits if_splits platform.splits)
  then show ?thesis
    using analyzeYouTube_qualities analyzeTikTok_qualities analyzeInstagram_qualities
      analyzeFacebook_qualities
    by (auto simp: js_def)
qed

theorem analyze_qualities_nonempty_witness:
  "POST_analyze offline (Body (JStr (js ''https://www.youtube.com/watch?v=dQw4w9WgXcQ'')) JUndefined) =
     ([FetchCall (oembed_request (js ''dQw4w9WgXcQ'')),
       GetInfoCall (js ''https://www.youtube.com/watch?v=dQw4w9WgXcQ'')],
      JsonMetadata
        \<lparr>md_platform = YouTube, md_title = js ''YouTube Video'',
         md_thumbnail = js ''https://i.ytimg.com/vi/dQw4w9WgXcQ/hqdefault.jpg'',
         md_duration = Num 0, md_qualities = [js ''720p'', js ''360p'']\<rparr>)
   \<and> md_qualities
        \<lparr>md_platform = YouTube, md_title = js ''YouTube Video'',
         md_thumbnail = js ''https://i.ytimg.com/vi/dQw4w9WgXcQ/hqdefault.jpg'',
         md_duration = Num 0, md_qualities = [js ''720p'', js ''360p'']\<rparr> \<noteq> []"
proof -
  have h: "POST_analyze offline (Body (JStr (js ''https://www.youtube.com/watch?v=dQw4w9WgXcQ'')) JUndefined) =
     ([FetchCall (oembed_request (js ''dQw4w9WgXcQ'')),
       GetInfoCall (js ''https://www.youtube.com/watch?v=dQw4w9WgXcQ'')],
      JsonMetadata
        \<lparr>md_platform = YouTube, md_title = js ''YouTube Video'',
         md_thumbnail = js ''https://i.ytimg.com/vi/dQw4w9WgXcQ/hqdefault.jpg'',
         md_duration = Num 0, md_qualities = [js ''720p'', js ''360p'']\<rparr>)"
    by code_simp
  from h analyze_qualities_nonempty [OF h] show ?thesis by (rule conjI)
qed

lemma detectPlatform_Nil: "detectPlatform [] = Unknown"
  by code_simp

text \<open>
  Claim C4, amended. For a URL from which \<open>extractYouTubeId\<close> extracts an id, if the
  oEmbed request resolves with an \<open>ok\<close> response whose body parses as a JSON value other
  than \<open>null\<close> (\<open>res_json resp = Inr d\<close>; its title, when present, a string), the analyze
  route makes that one call and answers with: the title of the oEmbed response when it
  is present and not empty, and \<open>"YouTube Video"\<close> otherwise; the thumbnail
  \<open>https://i.ytimg.com/vi/<id>/maxresdefault.jpg\<close>; duration 0; and the qualities
  \<open>["1080p", "720p", "480p", "360p"]\<close>. (On a body that is \<open>null\<close>, as on one that is not
  JSON, the read of the title throws and the route goes on to the library.)
\<close>

theorem youtube_oembed_result:
  assumes "extractYouTubeId url = Some videoId"
    and "fetch w (oembed_request videoId) = Inr resp"
    and "res_ok resp"
    and "res_json resp = Inr d"
  shows "POST_analyze w (Body (JStr url) q) =
     ([FetchCall (oembed_request videoId)],
      JsonMetadata
        \<lparr>md_platform = YouTube,
         md_title = (case data_title d of
                       None \<Rightarrow> js ''YouTube Video''
                     | Some t \<Rightarrow> if t = [] then js ''YouTube Video'' else t),
         md_thumbnail = js ''https://i.ytimg.com/vi/'' @ videoId @ js ''/maxresdefault.jpg'',
         md_duration = Num 0,
         md_qualities = [js ''1080p'', js ''720p'', js ''480p'', js ''360p'']\<rparr>)"
proof -
  have yt: "detectPlatform url = YouTube"
    using assms(1) by (rule extractYouTubeId_detectPlatform)
  then have ne: "url \<noteq> []" using detectPlatform_Nil by auto
  have v: "videoId \<noteq> []" using assms(1) by (rule extractYouTubeId_nonempty)
  have "analyzeYouTube w url =
     ([FetchCall (oembed_request videoId)],
      Inr \<lparr>md_platform = YouTube,
         md_title = or_else (data_title d) (js ''YouTube Video''),
         md_thumbnail = js ''https://i.ytimg.com/vi/'' @ videoId @ js ''/maxresdefault.jpg'',
         md_duration = Num 0,
         md_qualities = [js ''1080p'', js ''720p'', js ''480p'', js ''360p'']\<rparr>)"
    using assms v by (simp add: analyzeYouTube_def analyzeYouTube_oembed_def)
  then show ?thesis
    using yt ne by (simp add: POST_analyze_def analyze_reply_def or_else_def)
qed

theorem youtube_oembed_result_witness:
  "extractYouTubeId (js ''https://www.youtube.com/watch?v=dQw4w9WgXcQ'') = Some (js ''dQw4w9WgXcQ'')
   \<and> fetch (online (\<lambda>req. Inr (ok_response \<lparr>data_title = Some (js ''Never Gonna Give You Up''),
                 data_picture = None, data_links = None\<rparr>)) (\<lambda>url. Inl (Error [])))
         (oembed_request (js ''dQw4w9WgXcQ''))
       = Inr (ok_response \<lparr>data_title = Some (js ''Never Gonna Give You Up''),
                 data_picture = None, data_links = None\<rparr>)
   \<and> res_ok (ok_response \<lparr>data_title = Some (js ''Never Gonna Give You Up''),
                 data_picture = None, data_links = None\<rparr>)
   \<and> POST_analyze (online (\<lambda>req. Inr (ok_response \<lparr>data_title = Some (js ''Never Gonna Give You Up''),
                 data_picture = None, data_links = None\<rparr>)) (\<lambda>url. Inl (Error [])))
         (Body (JStr (js ''https://www.youtube.com/watch?v=dQw4w9WgXcQ'')) JUndefined) =
     ([FetchCall (oembed_request (js ''dQw4w9WgXcQ''))],
      JsonMetadata
        \<lparr>md_platform = YouTube,
         md_title = js ''Never Gonna Give You Up'',
         md_thumbnail = js ''https://i.ytimg.com/vi/'' @ js ''dQw4w9WgXcQ'' @ js ''/maxresdefault.jpg'',
         md_duration = Num 0,
         md_qualities = [js ''1080p'', js ''720p'', js ''480p'', js ''360p'']\<rparr>)"
proof -
  let ?d = "\<lparr>data_title = Some (js ''Never Gonna Give You Up''), data_picture = None, data_links = None\<rparr>"
  let ?w = "online (\<lambda>req. Inr (ok_response ?d)) (\<lambda>url. Inl (Error []))"
  have h1: "extractYouTubeId (js ''https://www.youtube.com/watch?v=dQw4w9WgXcQ'') = Some (js ''dQw4w9WgXcQ'')"
    by code_simp
  have h2: "fetch ?w (oembed_request (js ''dQw4w9WgXcQ'')) = Inr (ok_response ?d)"
    by (simp add: online_def)
  have h3: "res_ok (ok_response ?d)" by (simp add: ok_response_def)
  have h4: "res_json (ok_response ?d) = Inr ?d" by (simp add: ok_response_def)
  have ne: "js ''Never Gonna Give You Up'' \<noteq> []" by (simp add: js_def)
  show ?thesis
    using h1 h2 h3 youtube_oembed_result [OF h1 h2 h3 h4, of JUndefined] ne by simp
qed

text \<open>
  Claim C4, as stated, fails on the title: when the oEmbed response carries an empty
  title (or none), the route answers with the title \<open>"YouTube Video"\<close>, which is not the
  title of the response.
\<close>

theorem youtube_oembed_title_counterexample:
  "extractYouTubeId (js ''https://www.youtube.com/watch?v=dQw4w9WgXcQ'') = Some (js ''dQw4w9WgXcQ'')
   \<and> fetch (online (\<lambda>req. Inr (ok_response \<lparr>data_title = Some [], data_picture = None,
                 data_links = None\<rparr>)) (\<lambda>url. Inl (Error [])))
         (oembed_request (js ''dQw4w9WgXcQ''))
       = Inr (ok_response \<lparr>data_title = Some [], data_picture = None, data_links = None\<rparr>)
   \<and> res_ok (ok_response \<lparr>data_title = Some [], data_picture = None, data_links = None\<rparr>)
   \<and> snd (POST_analyze (online (\<lambda>req. Inr (ok_response \<lparr>data_title = Some [], data_picture = None,
                 data_links = None\<rparr>)) (\<lambda>url. Inl (Error [])))
         (Body (JStr (js ''https://www.youtube.com/watch?v=dQw4w9WgXcQ'')) JUndefined)) =
      JsonMetadata
        \<lparr>md_platform = YouTube,
         md_title = js ''YouTube Video'',
         md_thumbnail = js ''https://i.ytimg.com/vi/dQw4w9WgXcQ/maxresdefault.jpg'',
         md_duration = Num 0,
         md_qualities = [js ''1080p'', js ''720p'', js ''480p'', js ''360p'']\<rparr>
   \<and> Some (js ''YouTube Video'')
       \<noteq> data_title \<lparr>data_title = Some [], data_picture = None, data_links = None\<rparr>"
  by code_simp

subsection \<open>The download route: YouTube\<close>

lemma selectFormat_Nil: "selectFormat [] quality = Inl (Error (js ''No suitable format found''))"
  by (simp add: selectFormat_def)

lemma selectFormat_Cons:
  assumes "formats \<noteq> []"
  shows "\<exists>i < length formats. selectFormat formats quality = Inr (formats ! i)
     \<and> (if \<exists>g \<in> set formats. label_is quality g
         then label_is quality (formats ! i) \<and> (\<forall>j < i. \<not> label_is quality (formats ! j))
         else i = 0)"
proof (cases "find (label_is quality) formats")
  case None
  then have "\<not> (\<exists>g \<in> set formats. label_is quality g)"
    by (simp add: find_None_iff)
  moreover from None assms have "selectFormat formats quality = Inr (formats ! 0)"
    by (cases formats) (simp_all add: selectFormat_def)
  ultimately show ?thesis using assms by auto
next
  case (Some f)
  then obtain i where i: "i < length formats" "label_is quality (formats ! i)" "f = formats ! i"
    "\<forall>j < i. \<not> label_is quality (formats ! j)"
    unfolding find_Some_iff by blast
  moreover from Some have "selectFormat formats quality = Inr f"
    by (simp add: selectFormat_def)
  moreover have "\<exists>g \<in> set formats. label_is quality g"
    using i(1,2) nth_mem by blast
  ultimately show ?thesis by auto
qed

lemma downloadYouTube_unfold:
  assumes "ytdl_getInfo w url = Inr info"
    and "selectFormat (ytdl_filterFormats w (info_formats info)) quality = Inr f"
  shows "fst (downloadYouTube w url quality) = [GetInfoCall url, DownloadCall url f]"
    and "valid_header_value (content_disposition (youtube_filename (vd_title (info_videoDetails info))))
      \<Longrightarrow> snd (downloadYouTube w url quality) =
          Inr (Download
                 [(js ''Content-Type'', js ''video/mp4''),
                  (js ''Content-Disposition'',
                   content_disposition (youtube_filename (vd_title (info_videoDetails info)))),
                  (js ''Transfer-Encoding'', js ''chunked'')]
                 (Controlled (webStream (ytdl_download w url f))))"
proof -
  show "fst (downloadYouTube w url quality) = [GetInfoCall url, DownloadCall url f]"
    using assms
    by (simp add: downloadYouTube_def downloadYouTube_try_def split: sum.splits)
next
  have v: "valid_header_value (js ''video/mp4'')" "valid_header_value (js ''chunked'')"
    by code_simp+
  assume "valid_header_value (content_disposition (youtube_filename (vd_title (info_videoDetails info))))"
  with v assms
  show "snd (downloadYouTube w url quality) =
          Inr (Download
                 [(js ''Content-Type'', js ''video/mp4''),
                  (js ''Content-Disposition'',
                   content_disposition (youtube_filename (vd_title (info_videoDetails info)))),
                  (js ''Transfer-Encoding'', js ''chunked'')]
                 (Controlled (webStream (ytdl_download w url f))))"
    by (simp add: downloadYouTube_def downloadYouTube_try_def new_Response_def)
qed

text \<open>
  Claim C5, as stated, fails. With an empty list of formats, the error that leaves
  \<open>downloadYouTube\<close> is not \<open>"No suitable format found"\<close>: the \<open>catch\<close> of the function
  replaces it by the message that YouTube downloads are unavailable. And a list that is
  not empty does not make the download succeed: with a title that keeps a line feed, the
  \<open>Content-Disposition\<close> value is not a legal header value, \<open>new Response\<close> throws, and the
  same \<open>catch\<close> reports the same message.
\<close>

theorem youtube_format_selection_counterexample:
  "snd (downloadYouTube
      (online (\<lambda>req. Inl (Error []))
        (\<lambda>url. Inr \<lparr>info_formats = [],
                    info_videoDetails = \<lparr>vd_title = js ''Video'',
                       vd_lengthSeconds = js ''212'', vd_thumbnails = []\<rparr>\<rparr>))
      (js ''https://youtu.be/dQw4w9WgXcQ'') (JStr (js ''720p'')))
    = Inl (Error youtube_unavailable)
   \<and> youtube_unavailable \<noteq> js ''No suitable format found''
   \<and> snd (downloadYouTube
      (online (\<lambda>req. Inl (Error []))
        (\<lambda>url. Inr \<lparr>info_formats = [\<lparr>itag = 22, qualityLabel = Some (js ''720p'')\<rparr>],
                    info_videoDetails = \<lparr>vd_title = js ''Part 1'' @ [0x0A] @ js ''Part 2'',
                       vd_lengthSeconds = js ''212'', vd_thumbnails = []\<rparr>\<rparr>))
      (js ''https://youtu.be/dQw4w9WgXcQ'') (JStr (js ''720p'')))
    = Inl (Error youtube_unavailable)"
  by code_simp

text \<open>
  Claim C5, amended. Let \<open>formats\<close> be the combined audio and video formats that the
  library reports for the URL. If the list is empty, the \<open>try\<close> block of \<open>downloadYouTube\<close>
  throws \<open>"No suitable format found"\<close>, and the function fails with the message that
  YouTube downloads are unavailable, under which its \<open>catch\<close> reports every error. If the
  list is not empty, a format is selected and its stream is requested from the library:
  the first format whose label is the requested quality when there is one, and the first
  of the list otherwise. The download then succeeds, with that stream as its body,
  whenever the \<open>Content-Disposition\<close> value built from the title is a legal header value.
\<close>

theorem youtube_format_selection:
  assumes "ytdl_getInfo w url = Inr info"
    and "formats = ytdl_filterFormats w (info_formats info)"
  shows "(formats = [] \<longrightarrow>
            downloadYouTube_try w url quality =
              ([GetInfoCall url], Inl (Error (js ''No suitable format found'')))
            \<and> downloadYouTube w url quality = ([GetInfoCall url], Inl (Error youtube_unavailable)))
         \<and> (formats \<noteq> [] \<longrightarrow>
             (\<exists>i < length formats.
                (if \<exists>g \<in> set formats. label_is quality g
                 then label_is quality (formats ! i) \<and> (\<forall>j < i. \<not> label_is quality (formats ! j))
                 else i = 0)
                \<and> fst (downloadYouTube w url quality) =
                    [GetInfoCall url, DownloadCall url (formats ! i)]
                \<and> (valid_header_value
                      (content_disposition (youtube_filename (vd_title (info_videoDetails info)))) \<longrightarrow>
                    snd (downloadYouTube w url quality) =
                      Inr (Download
                        [(js ''Content-Type'', js ''video/mp4''),
                         (js ''Content-Disposition'',
                          content_disposition (youtube_filename (vd_title (info_videoDetails info)))),
                         (js ''Transfer-Encoding'', js ''chunked'')]
                        (Controlled (webStream (ytdl_download w url (formats ! i))))))))"
proof (cases "formats = []")
  case True
  then show ?thesis using assms
    by (simp add: downloadYouTube_def downloadYouTube_try_def selectFormat_Nil)
next
  case False
  from selectFormat_Cons [OF False, of quality] obtain i where i: "i < length formats"
    "selectFormat formats quality = Inr (formats ! i)"
    "if \<exists>g \<in> set formats. label_is quality g
     then label_is quality (formats ! i) \<and> (\<forall>j < i. \<not> label_is quality (formats ! j))
     else i = 0"
    by blast
  from i(2) have sel: "selectFormat (ytdl_filterFormats w (info_formats info)) quality = Inr (formats ! i)"
    by (simp only: assms(2))
  note u = downloadYouTube_unfold [OF assms(1) sel]
  from i(1,3) u False show ?thesis by blast
qed

theorem youtube_format_selection_witness:
  "ytdl_getInfo
      (online (\<lambda>req. Inl (Error []))
        (\<lambda>url. Inr \<lparr>info_formats = [\<lparr>itag = 18, qualityLabel = Some (js ''360p'')\<rparr>,
                                    \<lparr>itag = 22, qualityLabel = Some (js ''720p'')\<rparr>],
                    info_videoDetails = \<lparr>vd_title = js ''Never Gonna Give You Up'',
                       vd_lengthSeconds = js ''212'', vd_thumbnails = []\<rparr>\<rparr>))
      (js ''https://youtu.be/dQw4w9WgXcQ'')
    = Inr \<lparr>info_formats = [\<lparr>itag = 18, qualityLabel = Some (js ''360p'')\<rparr>,
                           \<lparr>itag = 22, qualityLabel = Some (js ''720p'')\<rparr>],
           info_videoDetails = \<lparr>vd_title = js ''Never Gonna Give You Up'',
              vd_lengthSeconds = js ''212'', vd_thumbnails = []\<rparr>\<rparr>
   \<and> fst (downloadYouTube
      (online (\<lambda>req. Inl (Error []))
        (\<lambda>url. Inr \<lparr>info_formats = [\<lparr>itag = 18, qualityLabel = Some (js ''360p'')\<rparr>,
                                    \<lparr>itag = 22, qualityLabel = Some (js ''720p'')\<rparr>],
                    info_videoDetails = \<lparr>vd_title = js ''Never Gonna Give You Up'',
                       vd_lengthSeconds = js ''212'', vd_thumbnails = []\<rparr>\<rparr>))
      (js ''https://youtu.be/dQw4w9WgXcQ'') (JStr (js ''720p'')))
    = [GetInfoCall (js ''https://youtu.be/dQw4w9WgXcQ''),
       DownloadCall (js ''https://youtu.be/dQw4w9WgXcQ'')
         \<lparr>itag = 22, qualityLabel = Some (js ''720p'')\<rparr>]
   \<and> valid_header_value (content_disposition (youtube_filename (js ''Never Gonna Give You Up'')))
   \<and> snd (downloadYouTube
      (online (\<lambda>req. Inl (Error []))
        (\<lambda>url. Inr \<lparr>info_formats = [\<lparr>itag = 18, qualityLabel = Some (js ''360p'')\<rparr>,
                                    \<lparr>itag = 22, qualityLabel = Some (js ''720p'')\<rparr>],
                    info_videoDetails = \<lparr>vd_title = js ''Never Gonna Give You Up'',
                       vd_lengthSeconds = js ''212'', vd_thumbnails = []\<rparr>\<rparr>))
      (js ''https://youtu.be/dQw4w9WgXcQ'') (JStr (js ''720p'')))
    = Inr (Download
        [(js ''Content-Type'', js ''video/mp4''),
         (js ''Content-Disposition'',
          content_disposition (youtube_filename (js ''Never Gonna Give You Up''))),
         (js ''Transfer-Encoding'', js ''chunked'')]
        (Controlled [Enqueue [0, 1, 2], CloseStream]))"
proof -
  let ?fs = "[\<lparr>itag = 18, qualityLabel = Some (js ''360p'')\<rparr>,
              \<lparr>itag = 22, qualityLabel = Some (js ''720p'')\<rparr>]"
  let ?info = "\<lparr>info_formats = ?fs,
           info_videoDetails = \<lparr>vd_title = js ''Never Gonna Give You Up'',
              vd_lengthSeconds = js ''212'', vd_thumbnails = []\<rparr>\<rparr>"
  let ?w = "online (\<lambda>req. Inl (Error [])) (\<lambda>url. Inr ?info)"
  let ?u = "js ''https://youtu.be/dQw4w9WgXcQ''"
  have h1: "ytdl_getInfo ?w ?u = Inr ?info" by (simp add: online_def)
  have h2: "?fs = ytdl_filterFormats ?w (info_formats ?info)" by (simp add: online_def)
  have ne: "js ''360p'' \<noteq> js ''720p''" by (simp add: js_def)
  have v: "valid_header_value (content_disposition (youtube_filename (js ''Never Gonna Give You Up'')))"
    by code_simp
  have s: "webStream (ytdl_download ?w ?u \<lparr>itag = 22, qualityLabel = Some (js ''720p'')\<rparr>)
      = [Enqueue [0, 1, 2], CloseStream]"
    by (simp add: online_def)
  from youtube_format_selection [OF h1 h2, of "JStr (js ''720p'')"] v
  obtain i where i: "i < length ?fs" "label_is (JStr (js ''720p'')) (?fs ! i)"
    and d: "fst (downloadYouTube ?w ?u (JStr (js ''720p''))) = [GetInfoCall ?u, DownloadCall ?u (?fs ! i)]"
    and r: "snd (downloadYouTube ?w ?u (JStr (js ''720p''))) =
        Inr (Download
          [(js ''Content-Type'', js ''video/mp4''),
           (js ''Content-Disposition'',
            content_disposition (youtube_filename (js ''Never Gonna Give You Up''))),
           (js ''Transfer-Encoding'', js ''chunked'')]
          (Controlled (webStream (ytdl_download ?w ?u (?fs ! i)))))"
    by (auto split: if_splits)
  from i ne have "i = 1" by (auto simp: less_Suc_eq)
  with d r h1 v s show ?thesis by simp
qed

subsection \<open>The download route: the aggregation API\<close>

lemma first_link_Cons: "data_links d = Some ls \<Longrightarrow> ls \<noteq> [] \<Longrightarrow> first_link d = link_link (ls ! 0)"
  by (cases ls) (simp_all add: first_link_def)

lemma hd_or_first_link_Cons:
  assumes "data_links d = Some ls" and "ls \<noteq> []"
  shows "\<exists>i < length ls. hd_or_first_link d = link_link (ls ! i)
     \<and> (if \<exists>l \<in> set ls. link_quality l = Some (js ''hd'')
         then link_quality (ls ! i) = Some (js ''hd'')
              \<and> (\<forall>j < i. link_quality (ls ! j) \<noteq> Some (js ''hd''))
         else i = 0)"
proof (cases "find (\<lambda>l. link_quality l = Some (js ''hd'')) ls")
  case None
  then have "\<not> (\<exists>l \<in> set ls. link_quality l = Some (js ''hd''))"
    by (simp add: find_None_iff)
  moreover from None assms have "hd_or_first_link d = link_link (ls ! 0)"
    by (cases ls) (simp_all add: hd_or_first_link_def)
  ultimately show ?thesis using assms by auto
next
  case (Some f)
  then obtain i where i: "i < length ls" "link_quality (ls ! i) = Some (js ''hd'')" "f = ls ! i"
    "\<forall>j < i. link_quality (ls ! j) \<noteq> Some (js ''hd'')"
    unfolding find_Some_iff by blast
  moreover from Some assms have "hd_or_first_link d = link_link f"
    by (cases ls) (simp_all add: hd_or_first_link_def)
  moreover have "\<exists>l \<in> set ls. link_quality l = Some (js ''hd'')"
    using i(1,2) nth_mem by blast
  ultimately show ?thesis by auto
qed

lemma no_links_falsy:
  "data_links d = None \<or> data_links d = Some [] \<Longrightarrow> falsy (first_link d) \<and> falsy (hd_or_first_link d)"
  by (auto simp: first_link_def hd_or_first_link_def)

lemma download_try_unfold:
  assumes "fetchFromRapidAPI w url = (cs, Inr d)"
  shows "download_try pick filename w url =
     (if falsy (pick d) then (cs, Inl (Error (js ''No video link found from RapidAPI'')))
      else (cs @ [FetchCall (stream_request (the (pick d)))],
            snd (streamVideo w (the (pick d)) filename)))"
  using assms by (simp add: download_try_def streamVideo_def)

text \<open>
  Claim C6, amended. Let \<open>d\<close> be the reply of the aggregation API. \<open>downloadFacebook\<close>
  picks the link of the first entry tagged \<open>hd\<close> when there is one, else the link of the
  first entry; \<open>downloadTikTok\<close> and \<open>downloadInstagram\<close> pick the link of the first
  entry whatever its tag. The \<open>try\<close> block throws \<open>"No video link found from RapidAPI"\<close>
  exactly when the picked link is missing or empty, which is the case when the list is
  absent or empty; otherwise it fetches the picked link and its outcome is that of
  \<open>streamVideo\<close>. (The \<open>catch\<close> of each function reports every error under the function's
  own message.)
\<close>

theorem aggregation_link_choice:
  assumes "fetchFromRapidAPI w url = (cs, Inr d)"
  shows "(\<forall>ls. data_links d = Some ls \<and> ls \<noteq> [] \<longrightarrow>
            first_link d = link_link (ls ! 0)
            \<and> (\<exists>i < length ls. hd_or_first_link d = link_link (ls ! i)
                 \<and> (if \<exists>l \<in> set ls. link_quality l = Some (js ''hd'')
                     then link_quality (ls ! i) = Some (js ''hd'')
                          \<and> (\<forall>j < i. link_quality (ls ! j) \<noteq> Some (js ''hd''))
                     else i = 0)))
         \<and> (data_links d = None \<or> data_links d = Some [] \<longrightarrow>
              falsy (first_link d) \<and> falsy (hd_or_first_link d))
         \<and> downloadTikTok_try w url =
             (if falsy (first_link d)
              then (cs, Inl (Error (js ''No video link found from RapidAPI'')))
              else (cs @ [FetchCall (stream_request (the (first_link d)))],
                    snd (streamVideo w (the (first_link d)) (js ''tiktok_video.mp4''))))
         \<and> downloadInstagram_try w url =
             (if falsy (first_link d)
              then (cs, Inl (Error (js ''No video link found from RapidAPI'')))
              else (cs @ [FetchCall (stream_request (the (first_link d)))],
                    snd (streamVideo w (the (first_link d)) (js ''instagram_video.mp4''))))
         \<and> downloadFacebook_try w url =
             (if falsy (hd_or_first_link d)
              then (cs, Inl (Error (js ''No video link found from RapidAPI'')))
              else (cs @ [FetchCall (stream_request (the (hd_or_first_link d)))],
                    snd (streamVideo w (the (hd_or_first_link d)) (js ''facebook_video.mp4''))))"
proof (intro conjI allI impI)
  fix ls assume "data_links d = Some ls \<and> ls \<noteq> []"
  then show "first_link d = link_link (ls ! 0)" by (simp add: first_link_Cons)
next
  fix ls assume "data_links d = Some ls \<and> ls \<noteq> []"
  then show "\<exists>i < length ls. hd_or_first_link d = link_link (ls ! i)
       \<and> (if \<exists>l \<in> set ls. link_quality l = Some (js ''hd'')
           then link_quality (ls ! i) = Some (js ''hd'')
                \<and> (\<forall>j < i. link_quality (ls ! j) \<noteq> Some (js ''hd''))
           else i = 0)"
    using hd_or_first_link_Cons by blast
next
  assume "data_links d = None \<or> data_links d = Some []"
  then show "falsy (first_link d)" using no_links_falsy by blast
next
  assume "data_links d = None \<or> data_links d = Some []"
  then show "falsy (hd_or_first_link d)" using no_links_falsy by blast
next
  show "downloadTikTok_try w url =
             (if falsy (first_link d)
              then (cs, Inl (Error (js ''No video link found from RapidAPI'')))
              else (cs @ [FetchCall (stream_request (the (first_link d)))],
                    snd (streamVideo w (the (first_link d)) (js ''tiktok_video.mp4''))))"
    unfolding downloadTikTok_try_def by (rule download_try_unfold [OF assms])
next
  show "downloadInstagram_try w url =
             (if falsy (first_link d)
              then (cs, Inl (Error (js ''No video link found from RapidAPI'')))
              else (cs @ [FetchCall (stream_request (the (first_link d)))],
                    snd (streamVideo w (the (first_link d)) (js ''instagram_video.mp4''))))"
    unfolding downloadInstagram_try_def by (rule download_try_unfold [OF assms])
next
  show "downloadFacebook_try w url =
             (if falsy (hd_or_first_link d)
              then (cs, Inl (Error (js ''No video link found from RapidAPI'')))
              else (cs @ [FetchCall (stream_request (the (hd_or_first_link d)))],
                    snd (streamVideo w (the (hd_or_first_link d)) (js ''facebook_video.mp4''))))"
    unfolding downloadFacebook_try_def by (rule download_try_unfold [OF assms])
qed

text \<open>
  Claim C6, as stated, fails twice. With an \<open>sd\<close> link before an \<open>hd\<close> link,
  \<open>downloadInstagram\<close> fetches the \<open>sd\<close> link: it takes the first entry, as its comment
  says. And a list that is neither absent nor empty still leads to the no-link error when
  the picked entry has an empty link.
\<close>

theorem aggregation_link_choice_counterexample:
  "data_links two_links \<noteq> None \<and> data_links two_links \<noteq> Some []
   \<and> fst (downloadInstagram (online (\<lambda>req. Inr (ok_response two_links)) (\<lambda>url. Inl (Error [])))
            (js ''https://www.instagram.com/reel/ABC123/''))
     = [FetchCall (rapidapi_request (online (\<lambda>req. Inr (ok_response two_links)) (\<lambda>url. Inl (Error [])))
                     (js ''https%3A%2F%2Fwww.instagram.com%2Freel%2FABC123%2F'')),
        FetchCall (stream_request (js ''https://cdn.example/sd.mp4''))]
   \<and> data_links hd_without_link \<noteq> None \<and> data_links hd_without_link \<noteq> Some []
   \<and> downloadFacebook_try (online (\<lambda>req. Inr (ok_response hd_without_link)) (\<lambda>url. Inl (Error [])))
            (js ''https://fb.watch/ABC123'')
     = ([FetchCall (rapidapi_request (online (\<lambda>req. Inr (ok_response hd_without_link)) (\<lambda>url. Inl (Error [])))
                     (js ''https%3A%2F%2Ffb.watch%2FABC123''))],
        Inl (Error (js ''No video link found from RapidAPI'')))"
  by code_simp

theorem aggregation_link_choice_witness:
  "fetchFromRapidAPI (online (\<lambda>req. Inr (ok_response two_links)) (\<lambda>url. Inl (Error [])))
       (js ''https://fb.watch/ABC123'')
     = ([FetchCall (rapidapi_request (online (\<lambda>req. Inr (ok_response two_links)) (\<lambda>url. Inl (Error [])))
                     (js ''https%3A%2F%2Ffb.watch%2FABC123''))],
        Inr two_links)
   \<and> fst (downloadFacebook_try (online (\<lambda>req. Inr (ok_response two_links)) (\<lambda>url. Inl (Error [])))
       (js ''https://fb.watch/ABC123''))
     = [FetchCall (rapidapi_request (online (\<lambda>req. Inr (ok_response two_links)) (\<lambda>url. Inl (Error [])))
                     (js ''https%3A%2F%2Ffb.watch%2FABC123'')),
        FetchCall (stream_request (js ''https://cdn.example/hd.mp4''))]"
proof -
  let ?w = "online (\<lambda>req. Inr (ok_response two_links)) (\<lambda>url. Inl (Error []))"
  have h: "fetchFromRapidAPI ?w (js ''https://fb.watch/ABC123'')
     = ([FetchCall (rapidapi_request ?w (js ''https%3A%2F%2Ffb.watch%2FABC123''))], Inr two_links)"
    by code_simp
  have p: "hd_or_first_link two_links = Some (js ''https://cdn.example/hd.mp4'')"
    by code_simp
  have ne: "js ''https://cdn.example/hd.mp4'' \<noteq> []" by (simp add: js_def)
  show ?thesis
    using h aggregation_link_choice [OF h] p ne by simp
qed

subsection \<open>The download route: upstream failures\<close>










subsection \<open>The API key\<close>

lemma RAPIDAPI_KEY_nonempty: "RAPIDAPI_KEY w \<noteq> []"
  by (simp add: RAPIDAPI_KEY_def or_else_def js_def split: option.splits)

text \<open>
  Claim C8 does not hold of the code. \<open>RAPIDAPI_KEY\<close> falls back to a key written in the
  source when the environment has none, so the guard \<open>if (!RAPIDAPI_KEY)\<close> of
  \<open>fetchFromRapidAPI\<close> never fires: with no key configured, the request is sent with the
  built-in key, and the error reported is that of the request, not \<open>"RAPIDAPI_KEY is not
  configured"\<close>.
\<close>

theorem missing_key_not_reported:
  "env_RAPIDAPI_KEY offline = None
   \<and> fetchFromRapidAPI offline (js ''https://vm.tiktok.com/ABC123'') =
       ([FetchCall
           \<lparr>req_url = js ''https://social-media-video-downloader.p.rapidapi.com/smvd/get/all?url=https%3A%2F%2Fvm.tiktok.com%2FABC123'',
            req_headers =
              [(js ''x-rapidapi-key'', js ''660e8df9ffmshda83470792f30bep12a0b5jsnc90613c2cfde''),
               (js ''x-rapidapi-host'', js ''social-media-video-downloader.p.rapidapi.com'')]\<rparr>],
        Inl (Error (js ''fetch failed'')))
   \<and> POST_download offline (Body (JStr (js ''https://vm.tiktok.com/ABC123'')) JUndefined) =
       ([FetchCall
           \<lparr>req_url = js ''https://social-media-video-downloader.p.rapidapi.com/smvd/get/all?url=https%3A%2F%2Fvm.tiktok.com%2FABC123'',
            req_headers =
              [(js ''x-rapidapi-key'', js ''660e8df9ffmshda83470792f30bep12a0b5jsnc90613c2cfde''),
               (js ''x-rapidapi-host'', js ''social-media-video-downloader.p.rapidapi.com'')]\<rparr>],
        JsonMessage 500 (js ''Failed to download TikTok video via RapidAPI''))"
  by code_simp

subsection \<open>The status of a video in the client store\<close>

lemma status_step_refl [simp]: "status_step a a"
  by (cases a) simp_all

lemma status_step_None [simp]: "status_step a None"
  by (cases a) simp_all


lemma spread_id [simp]: "u_id u = None \<Longrightarrow> vi_id (spread v u) = vi_id v"
  by (simp add: spread_def)

lemma spread_status [simp]:
  "vi_status (spread v u) = (case u_status u of None \<Rightarrow> vi_status v | Some x \<Rightarrow> x)"
  by (simp add: spread_def)

lemma map_id_updateVideo [simp]:
  "u_id u = None \<Longrightarrow> map vi_id (updateVideo vid u vs) = map vi_id vs"
  by (induction vs) (simp_all add: updateVideo_def)

lemma find_updateVideo:
  assumes "u_id u = None"
  shows "find (\<lambda>v. vi_id v = x) (updateVideo vid u vs) =
     map_option (\<lambda>v. if vi_id v = vid then spread v u else v) (find (\<lambda>v. vi_id v = x) vs)"
  using assms by (induction vs) (simp_all add: updateVideo_def)

lemma observe_updateVideo:
  assumes "videos s' = updateVideo vid u (videos s)" and "u_id u = None"
  shows "observe s' x =
     (if x = vid then map_option (\<lambda>st. case u_status u of None \<Rightarrow> st | Some n \<Rightarrow> n) (observe s x)
      else observe s x)"
proof (cases "find (\<lambda>v. vi_id v = x) (videos s)")
  case None
  then show ?thesis using assms by (auto simp: observe_def find_updateVideo)
next
  case (Some v)
  then have "vi_id v = x" by (auto simp: find_Some_iff)
  with Some show ?thesis using assms by (auto simp: observe_def find_updateVideo)
qed

lemma observe_Some:
  "observe s x = Some st \<Longrightarrow> \<exists>v \<in> set (videos s). vi_id v = x \<and> vi_status v = st"
  by (auto simp: observe_def find_Some_iff)

lemma observe_None: "observe s x = None \<longleftrightarrow> x \<notin> vi_id ` set (videos s)"
  by (auto simp: observe_def find_None_iff)

lemma observe_has_status: "has_status s x st \<Longrightarrow> observe s x = None \<or> observe s x = Some st"
  using observe_Some [of s x] by (cases "observe s x") (auto simp: has_status_def)

lemma find_filter_distinct:
  assumes "distinct (map vi_id vs)"
  shows "find (\<lambda>v. vi_id v = x) (filter P vs) = None
      \<or> find (\<lambda>v. vi_id v = x) (filter P vs) = find (\<lambda>v. vi_id v = x) vs"
  using assms
proof (induction vs)
  case Nil
  show ?case by simp
next
  case (Cons a vs)
  show ?case
  proof (cases "vi_id a = x")
    case True
    with Cons.prems have "x \<notin> vi_id ` set (filter P vs)" by auto
    then have "find (\<lambda>v. vi_id v = x) (filter P vs) = None"
      by (auto simp: find_None_iff)
    with True show ?thesis by simp
  next
    case False
    with Cons show ?thesis by simp
  qed
qed

lemma observe_filter:
  assumes "videos s' = filter P (videos s)" and "invariant s"
  shows "status_step (observe s x) (observe s' x)"
proof -
  from assms(2) have "distinct (map vi_id (videos s))" by (simp add: invariant_def)
  from find_filter_distinct [OF this, of x P] assms(1) 
  have "observe s' x = None \<or> observe s' x = observe s x" by (auto simp: observe_def)
  then show ?thesis by (cases "observe s x") auto
qed

lemma find_append_new:
  "find P (vs @ [a]) = (case find P vs of Some v \<Rightarrow> Some v | None \<Rightarrow> if P a then Some a else None)"
  by (induction vs) simp_all

lemma observe_addVideo:
  assumes "videos s' = addVideo url vid (videos s)" and "vid \<notin> vi_id ` set (videos s)"
  shows "observe s' x = (if x = vid then Some Pending else observe s x)"
proof (cases "x = vid")
  case True
  with assms have "find (\<lambda>v. vi_id v = x) (videos s) = None" by (auto simp: find_None_iff)
  with True assms(1) show ?thesis by (simp add: observe_def addVideo_def find_append_new)
next
  case False
  then show ?thesis using assms(1)
    by (simp add: observe_def addVideo_def find_append_new split: option.splits)
qed

lemma no_updates_id [simp]:
  "u_id no_updates = None" "u_status no_updates = None"
  by (simp_all add: no_updates_def)

lemma observe_set_status:
  assumes "has_status s vid a"
    and "videos s' = updateVideo vid u (videos s)"
    and "u_id u = None" and "u_status u = Some b" and "a = b \<or> allowed a b"
  shows "status_step (observe s x) (observe s' x)"
  using observe_updateVideo [OF assms(2,3), of x] observe_has_status [OF assms(1)] assms(4,5)
  by auto

lemma observe_keep_status:
  assumes "videos s' = updateVideo vid u (videos s)" and "u_id u = None" and "u_status u = None"
  shows "status_step (observe s x) (observe s' x)"
  using observe_updateVideo [OF assms(1,2), of x] assms(3)
  by (cases "observe s x") auto

lemma fire_step:
  assumes "invariant s"
  shows "status_step (observe s x) (observe (fire e s) x)"
proof (cases e)
  case (Submit url vid)
  show ?thesis
  proof (cases "fire e s = s")
    case True
    then show ?thesis by simp
  next
    case False
    with Submit have fresh: "vid \<notin> set (used_ids s)"
      and eq: "videos (fire e s) = addVideo url vid (videos s)"
      by (auto split: if_splits)
    from fresh assms have new: "vid \<notin> vi_id ` set (videos s)" by (auto simp: invariant_def)
    then have "observe s vid = None" by (simp add: observe_None)
    with observe_addVideo [OF eq new, of x] show ?thesis by auto
  qed
next
  case MarkAnalyzing
  show ?thesis
  proof (cases "added s")
    case None
    with MarkAnalyzing show ?thesis by simp
  next
    case (Some vid)
    with assms have "has_status s vid Pending" by (simp add: invariant_def)
    moreover from Some MarkAnalyzing
    have "videos (fire e s) = updateVideo vid (no_updates\<lparr>u_status := Some Analyzing\<rparr>) (videos s)"
      by simp
    ultimately show ?thesis by (rule observe_set_status [where b = Analyzing]) simp_all
  qed
next
  case (AnalyzeOk data)
  show ?thesis
  proof (cases "awaiting s")
    case None
    with AnalyzeOk show ?thesis by simp
  next
    case (Some vid)
    with assms have "has_status s vid Analyzing" by (simp add: invariant_def)
    moreover from Some AnalyzeOk
    have "videos (fire e s) =
        updateVideo vid
          (no_updates\<lparr>u_title := Some (md_title data),
                   u_thumbnail := Some (md_thumbnail data),
                   u_duration := Some (md_duration data),
                   u_qualities := Some (md_qualities data),
                   u_selectedQuality := Some (pick_quality (md_qualities data)),
                   u_status := Some Ready\<rparr>) (videos s)"
      by simp
    ultimately show ?thesis by (rule observe_set_status [where b = Ready]) simp_all
  qed
next
  case (AnalyzeFailed msg)
  show ?thesis
  proof (cases "awaiting s")
    case None
    with AnalyzeFailed show ?thesis by simp
  next
    case (Some vid)
    with assms have "has_status s vid Analyzing" by (simp add: invariant_def)
    moreover from Some AnalyzeFailed
    have "videos (fire e s) =
        updateVideo vid (no_updates\<lparr>u_status := Some Failed, u_error := Some (Some msg)\<rparr>) (videos s)"
      by simp
    ultimately show ?thesis by (rule observe_set_status [where b = Failed]) simp_all
  qed
next
  case (ClickDownload vid)
  show ?thesis
  proof (cases "fire e s = s")
    case True
    then show ?thesis by simp
  next
    case False
    with ClickDownload have r: "\<exists>v \<in> set (videos s). vi_id v = vid \<and> vi_status v = Ready"
      and eq: "videos (fire e s) =
        updateVideo vid (no_updates\<lparr>u_status := Some Downloading, u_progress := Some 0\<rparr>) (videos s)"
      by (auto split: if_splits)
    from r assms have "has_status s vid Ready"
      by (auto simp: has_status_def invariant_def distinct_map inj_on_def)
    then show ?thesis using eq by (rule observe_set_status [where b = Downloading]) simp_all
  qed
next
  case (Progress vid p)
  then have "fire e s = s \<or> videos (fire e s) = updateVideo vid (no_updates\<lparr>u_progress := Some p\<rparr>) (videos s)"
    by simp
  then show ?thesis using observe_keep_status by fastforce
next
  case (DownloadOk vid)
  show ?thesis
  proof (cases "vid \<in> set (downloading s)")
    case False
    with DownloadOk show ?thesis by simp
  next
    case True
    with assms have "has_status s vid Downloading" by (simp add: invariant_def)
    moreover from True DownloadOk
    have "videos (fire e s) =
        updateVideo vid (no_updates\<lparr>u_status := Some Completed, u_progress := Some 100\<rparr>) (videos s)"
      by simp
    ultimately show ?thesis by (rule observe_set_status [where b = Completed]) simp_all
  qed
next
  case (DownloadFailed vid msg)
  show ?thesis
  proof (cases "vid \<in> set (downloading s)")
    case False
    with DownloadFailed show ?thesis by simp
  next
    case True
    with assms have "has_status s vid Downloading" by (simp add: invariant_def)
    moreover from True DownloadFailed
    have "videos (fire e s) =
        updateVideo vid (no_updates\<lparr>u_status := Some Failed, u_error := Some (Some msg)\<rparr>) (videos s)"
      by simp
    ultimately show ?thesis by (rule observe_set_status [where b = Failed]) simp_all
  qed
next
  case (ChangeQuality vid q)
  then have "fire e s = s
     \<or> videos (fire e s) = updateVideo vid (no_updates\<lparr>u_selectedQuality := Some (Some q)\<rparr>) (videos s)"
    by simp
  then show ?thesis using observe_keep_status by fastforce
next
  case (Remove vid)
  then have "videos (fire e s) = filter (\<lambda>v. vi_id v \<noteq> vid) (videos s)"
    by (simp add: removeVideo_def)
  then show ?thesis using assms by (rule observe_filter)
next
  case ClearCompleted
  then have "videos (fire e s) = filter (\<lambda>v. vi_status v \<noteq> Completed) (videos s)"
    by (simp add: clearCompleted_def)
  then show ?thesis using assms by (rule observe_filter)
qed

lemma set_id_updateVideo:
  assumes "u_id u = None"
  shows "vi_id ` set (updateVideo vid u vs) = vi_id ` set vs"
  using map_id_updateVideo [OF assms, of vid vs] by (metis list.set_map)

lemma has_status_updateVideo:
  assumes "videos s' = updateVideo vid u (videos s)" and "u_id u = None"
  shows "has_status s' x st \<longleftrightarrow>
     (\<forall>v \<in> set (videos s). vi_id v = x \<longrightarrow>
        (if x = vid then (case u_status u of None \<Rightarrow> vi_status v | Some b \<Rightarrow> b) else vi_status v) = st)"
proof -
  define f where "f = (\<lambda>v. if vi_id v = vid then spread v u else v)"
  have f: "vi_id (f v) = vi_id v"
    "vi_status (f v) =
       (if vi_id v = vid then (case u_status u of None \<Rightarrow> vi_status v | Some b \<Rightarrow> b) else vi_status v)"
    for v using assms(2) by (simp_all add: f_def)
  have "set (videos s') = f ` set (videos s)"
    using assms(1) by (simp add: updateVideo_def f_def)
  then have "has_status s' x st \<longleftrightarrow> (\<forall>v \<in> set (videos s). vi_id (f v) = x \<longrightarrow> vi_status (f v) = st)"
    by (simp add: has_status_def)
  then show ?thesis unfolding f by auto
qed

lemma invariant_updateVideo:
  assumes "invariant s"
    and "videos s' = updateVideo vid u (videos s)" and "u_id u = None"
    and "used_ids s' = used_ids s"
    and "\<And>x. added s' = Some x \<Longrightarrow> x \<in> set (used_ids s) \<and> has_status s' x Pending"
    and "\<And>x. awaiting s' = Some x \<Longrightarrow> x \<in> set (used_ids s) \<and> has_status s' x Analyzing"
    and "\<And>x. x \<in> set (downloading s') \<Longrightarrow> x \<in> set (used_ids s) \<and> has_status s' x Downloading"
  shows "invariant s'"
proof -
  have "distinct (map vi_id (videos s'))"
    using assms(1,2,3) by (simp add: invariant_def)
  moreover have "vi_id ` set (videos s') \<subseteq> set (used_ids s')"
    using assms(1) unfolding assms(2,4) set_id_updateVideo [OF assms(3)]
    by (auto simp: invariant_def)
  then have "\<forall>v \<in> set (videos s'). vi_id v \<in> set (used_ids s')"
    by (simp add: image_subset_iff)
  ultimately show ?thesis using assms(4,5,6,7) by (simp add: invariant_def)
qed

lemma has_status_conflict:
  assumes "has_status s x a" and "has_status s x b" and "a \<noteq> b"
  shows "x \<notin> vi_id ` set (videos s)"
  using assms by (auto simp: has_status_def)

lemma has_status_absent:
  assumes "videos s' = updateVideo vid u (videos s)" and "u_id u = None"
    and "x \<notin> vi_id ` set (videos s)"
  shows "has_status s' x st"
  using assms by (auto simp: has_status_updateVideo)

lemma has_status_other:
  assumes "videos s' = updateVideo vid u (videos s)" and "u_id u = None"
    and "has_status s x st" and "x \<noteq> vid \<or> u_status u = None \<or> u_status u = Some st"
  shows "has_status s' x st"
  unfolding has_status_updateVideo [OF assms(1,2)]
  using assms(3,4) by (auto simp: has_status_def split: option.splits)

text \<open>A handler sets the status of the video it works on; the other handlers keep theirs.\<close>

lemma has_status_after:
  assumes "videos s' = updateVideo vid u (videos s)" and "u_id u = None"
    and "has_status s vid a" and "has_status s x st" and "x = vid \<longrightarrow> a \<noteq> st \<or> u_status u = Some st \<or> u_status u = None"
  shows "has_status s' x st"
proof (cases "x = vid \<and> a \<noteq> st")
  case True
  with assms(3,4) have "x \<notin> vi_id ` set (videos s)" using has_status_conflict by blast
  with assms(1,2) show ?thesis by (rule has_status_absent)
next
  case False
  with assms show ?thesis using has_status_other by blast
qed

lemma invariant_fire:
  assumes "invariant s"
  shows "invariant (fire e s)"
proof (cases e)
  case (Submit url vid)
  show ?thesis
  proof (cases "fire e s = s")
    case True
    with assms show ?thesis by simp
  next
    case False
    with Submit have fresh: "vid \<notin> set (used_ids s)"
      and eq: "fire e s = s\<lparr>videos := addVideo url vid (videos s), used_ids := vid # used_ids s, added := Some vid\<rparr>"
      and aw: "awaiting s = None"
      by (auto split: if_splits)
    from fresh assms have new: "vid \<notin> vi_id ` set (videos s)" by (auto simp: invariant_def)
    show ?thesis unfolding eq using assms fresh new aw
      by (auto simp: invariant_def has_status_def addVideo_def)
  qed
next
  case MarkAnalyzing
  show ?thesis
  proof (cases "added s")
    case None
    with MarkAnalyzing assms show ?thesis by simp
  next
    case (Some vid)
    with assms have p: "has_status s vid Pending" and u: "vid \<in> set (used_ids s)"
      by (simp_all add: invariant_def)
    let ?u = "no_updates\<lparr>u_status := Some Analyzing\<rparr>"
    from Some MarkAnalyzing have eq: "videos (fire e s) = updateVideo vid ?u (videos s)"
      and rest: "used_ids (fire e s) = used_ids s" "added (fire e s) = None"
        "awaiting (fire e s) = Some vid" "downloading (fire e s) = downloading s"
      by simp_all
    show ?thesis
    proof (rule invariant_updateVideo [OF assms eq _ rest(1)])
      show "u_id ?u = None" by simp
    next
      fix x assume "added (fire e s) = Some x"
      with rest show "x \<in> set (used_ids s) \<and> has_status (fire e s) x Pending" by simp
    next
      fix x assume "awaiting (fire e s) = Some x"
      with rest have "x = vid" by simp
      with u eq show "x \<in> set (used_ids s) \<and> has_status (fire e s) x Analyzing"
        by (simp add: has_status_updateVideo)
    next
      fix x assume "x \<in> set (downloading (fire e s))"
      with rest assms have "x \<in> set (used_ids s)" "has_status s x Downloading"
        by (simp_all add: invariant_def)
      with has_status_after [OF eq _ p, of x Downloading]
      show "x \<in> set (used_ids s) \<and> has_status (fire e s) x Downloading" by simp
    qed
  qed
next
  case (AnalyzeOk data)
  show ?thesis
  proof (cases "awaiting s")
    case None
    with AnalyzeOk assms show ?thesis by simp
  next
    case (Some vid)
    with assms have p: "has_status s vid Analyzing" and u: "vid \<in> set (used_ids s)"
      by (simp_all add: invariant_def)
    let ?u = "no_updates\<lparr>u_title := Some (md_title data),
                   u_thumbnail := Some (md_thumbnail data),
                   u_duration := Some (md_duration data),
                   u_qualities := Some (md_qualities data),
                   u_selectedQuality := Some (pick_quality (md_qualities data)),
                   u_status := Some Ready\<rparr>"
    from Some AnalyzeOk have eq: "videos (fire e s) = updateVideo vid ?u (videos s)"
      and rest: "used_ids (fire e s) = used_ids s" "added (fire e s) = added s"
        "awaiting (fire e s) = None" "downloading (fire e s) = downloading s"
      by simp_all
    have uid: "u_id ?u = None" by simp
    show ?thesis
    proof (rule invariant_updateVideo [OF assms eq uid rest(1)])
      fix x assume "added (fire e s) = Some x"
      with rest assms have "x \<in> set (used_ids s)" "has_status s x Pending"
        by (simp_all add: invariant_def)
      with has_status_after [OF eq uid p, of x Pending]
      show "x \<in> set (used_ids s) \<and> has_status (fire e s) x Pending" by simp
    next
      fix x assume "awaiting (fire e s) = Some x"
      with rest show "x \<in> set (used_ids s) \<and> has_status (fire e s) x Analyzing" by simp
    next
      fix x assume "x \<in> set (downloading (fire e s))"
      with rest assms have "x \<in> set (used_ids s)" "has_status s x Downloading"
        by (simp_all add: invariant_def)
      with has_status_after [OF eq uid p, of x Downloading]
      show "x \<in> set (used_ids s) \<and> has_status (fire e s) x Downloading" by simp
    qed
  qed
next
  case (AnalyzeFailed msg)
  show ?thesis
  proof (cases "awaiting s")
    case None
    with AnalyzeFailed assms show ?thesis by simp
  next
    case (Some vid)
    with assms have p: "has_status s vid Analyzing" and u: "vid \<in> set (used_ids s)"
      by (simp_all add: invariant_def)
    let ?u = "no_updates\<lparr>u_status := Some Failed, u_error := Some (Some msg)\<rparr>"
    from Some AnalyzeFailed have eq: "videos (fire e s) = updateVideo vid ?u (videos s)"
      and rest: "used_ids (fire e s) = used_ids s" "added (fire e s) = added s"
        "awaiting (fire e s) = None" "downloading (fire e s) = downloading s"
      by simp_all
    have uid: "u_id ?u = None" by simp
    show ?thesis
    proof (rule invariant_updateVideo [OF assms eq uid rest(1)])
      fix x assume "added (fire e s) = Some x"
      with rest assms have "x \<in> set (used_ids s)" "has_status s x Pending"
        by (simp_all add: invariant_def)
      with has_status_after [OF eq uid p, of x Pending]
      show "x \<in> set (used_ids s) \<and> has_status (fire e s) x Pending" by simp
    next
      fix x assume "awaiting (fire e s) = Some x"
      with rest show "x \<in> set (used_ids s) \<and> has_status (fire e s) x Analyzing" by simp
    next
      fix x assume "x \<in> set (downloading (fire e s))"
      with rest assms have "x \<in> set (used_ids s)" "has_status s x Downloading"
        by (simp_all add: invariant_def)
      with has_status_after [OF eq uid p, of x Downloading]
      show "x \<in> set (used_ids s) \<and> has_status (fire e s) x Downloading" by simp
    qed
  qed
next
  case (ClickDownload vid)
  show ?thesis
  proof (cases "fire e s = s")
    case True
    with assms show ?thesis by simp
  next
    case False
    with ClickDownload have r: "\<exists>v \<in> set (videos s). vi_id v = vid \<and> vi_status v = Ready"
      by (auto split: if_splits)
    with assms have p: "has_status s vid Ready" and u: "vid \<in> set (used_ids s)"
      by (auto simp: has_status_def invariant_def distinct_map inj_on_def)
    let ?u = "no_updates\<lparr>u_status := Some Downloading, u_progress := Some 0\<rparr>"
    from False ClickDownload have eq: "videos (fire e s) = updateVideo vid ?u (videos s)"
      and rest: "used_ids (fire e s) = used_ids s" "added (fire e s) = added s"
        "awaiting (fire e s) = awaiting s" "downloading (fire e s) = vid # downloading s"
      by (auto split: if_splits)
    have uid: "u_id ?u = None" by simp
    show ?thesis
    proof (rule invariant_updateVideo [OF assms eq uid rest(1)])
      fix x assume "added (fire e s) = Some x"
      with rest assms have "x \<in> set (used_ids s)" "has_status s x Pending"
        by (simp_all add: invariant_def)
      with has_status_after [OF eq uid p, of x Pending]
      show "x \<in> set (used_ids s) \<and> has_status (fire e s) x Pending" by simp
    next
      fix x assume "awaiting (fire e s) = Some x"
      with rest assms have "x \<in> set (used_ids s)" "has_status s x Analyzing"
        by (simp_all add: invariant_def)
      with has_status_after [OF eq uid p, of x Analyzing]
      show "x \<in> set (used_ids s) \<and> has_status (fire e s) x Analyzing" by simp
    next
      fix x assume x: "x \<in> set (downloading (fire e s))"
      show "x \<in> set (used_ids s) \<and> has_status (fire e s) x Downloading"
      proof (cases "x = vid")
        case True
        with u eq show ?thesis by (simp add: has_status_updateVideo)
      next
        case False
        with x rest assms have "x \<in> set (used_ids s)" "has_status s x Downloading"
          by (simp_all add: invariant_def)
        with has_status_other [OF eq uid, of x Downloading] False show ?thesis by simp
      qed
    qed
  qed
next
  case (Progress vid p)
  show ?thesis
  proof (cases "fire e s = s")
    case True
    with assms show ?thesis by simp
  next
    case False
    let ?u = "no_updates\<lparr>u_progress := Some p\<rparr>"
    from False Progress have eq: "videos (fire e s) = updateVideo vid ?u (videos s)"
      and rest: "used_ids (fire e s) = used_ids s" "added (fire e s) = added s"
        "awaiting (fire e s) = awaiting s" "downloading (fire e s) = downloading s"
      by (auto split: if_splits)
    have uid: "u_id ?u = None" "u_status ?u = None" by simp_all
    show ?thesis
      using assms has_status_other [OF eq uid(1)] uid(2) rest
      by (intro invariant_updateVideo [OF assms eq uid(1) rest(1)]) (auto simp: invariant_def)
  qed
next
  case (DownloadOk vid)
  show ?thesis
  proof (cases "vid \<in> set (downloading s)")
    case False
    with DownloadOk assms show ?thesis by simp
  next
    case True
    with assms have p: "has_status s vid Downloading" by (simp add: invariant_def)
    let ?u = "no_updates\<lparr>u_status := Some Completed, u_progress := Some 100\<rparr>"
    from True DownloadOk have eq: "videos (fire e s) = updateVideo vid ?u (videos s)"
      and rest: "used_ids (fire e s) = used_ids s" "added (fire e s) = added s"
        "awaiting (fire e s) = awaiting s" "downloading (fire e s) = removeAll vid (downloading s)"
      by simp_all
    have uid: "u_id ?u = None" by simp
    show ?thesis
    proof (rule invariant_updateVideo [OF assms eq uid rest(1)])
      fix x assume "added (fire e s) = Some x"
      with rest assms have "x \<in> set (used_ids s)" "has_status s x Pending"
        by (simp_all add: invariant_def)
      with has_status_after [OF eq uid p, of x Pending]
      show "x \<in> set (used_ids s) \<and> has_status (fire e s) x Pending" by simp
    next
      fix x assume "awaiting (fire e s) = Some x"
      with rest assms have "x \<in> set (used_ids s)" "has_status s x Analyzing"
        by (simp_all add: invariant_def)
      with has_status_after [OF eq uid p, of x Analyzing]
      show "x \<in> set (used_ids s) \<and> has_status (fire e s) x Analyzing" by simp
    next
      fix x assume "x \<in> set (downloading (fire e s))"
      with rest assms have "x \<noteq> vid" "x \<in> set (used_ids s)" "has_status s x Downloading"
        by (simp_all add: invariant_def)
      with has_status_other [OF eq uid, of x Downloading]
      show "x \<in> set (used_ids s) \<and> has_status (fire e s) x Downloading" by simp
    qed
  qed
next
  case (DownloadFailed vid msg)
  show ?thesis
  proof (cases "vid \<in> set (downloading s)")
    case False
    with DownloadFailed assms show ?thesis by simp
  next
    case True
    with assms have p: "has_status s vid Downloading" by (simp add: invariant_def)
    let ?u = "no_updates\<lparr>u_status := Some Failed, u_error := Some (Some msg)\<rparr>"
    from True DownloadFailed have eq: "videos (fire e s) = updateVideo vid ?u (videos s)"
      and rest: "used_ids (fire e s) = used_ids s" "added (fire e s) = added s"
        "awaiting (fire e s) = awaiting s" "downloading (fire e s) = removeAll vid (downloading s)"
      by simp_all
    have uid: "u_id ?u = None" by simp
    show ?thesis
    proof (rule invariant_updateVideo [OF assms eq uid rest(1)])
      fix x assume "added (fire e s) = Some x"
      with rest assms have "x \<in> set (used_ids s)" "has_status s x Pending"
        by (simp_all add: invariant_def)
      with has_status_after [OF eq uid p, of x Pending]
      show "x \<in> set (used_ids s) \<and> has_status (fire e s) x Pending" by simp
    next
      fix x assume "awaiting (fire e s) = Some x"
      with rest assms have "x \<in> set (used_ids s)" "has_status s x Analyzing"
        by (simp_all add: invariant_def)
      with has_status_after [OF eq uid p, of x Analyzing]
      show "x \<in> set (used_ids s) \<and> has_status (fire e s) x Analyzing" by simp
    next
      fix x assume "x \<in> set (downloading (fire e s))"
      with rest assms have "x \<noteq> vid" "x \<in> set (used_ids s)" "has_status s x Downloading"
        by (simp_all add: invariant_def)
      with has_status_other [OF eq uid, of x Downloading]
      show "x \<in> set (used_ids s) \<and> has_status (fire e s) x Downloading" by simp
    qed
  qed
next
  case (ChangeQuality vid q)
  show ?thesis
  proof (cases "fire e s = s")
    case True
    with assms show ?thesis by simp
  next
    case False
    let ?u = "no_updates\<lparr>u_selectedQuality := Some (Some q)\<rparr>"
    from False ChangeQuality have eq: "videos (fire e s) = updateVideo vid ?u (videos s)"
      and rest: "used_ids (fire e s) = used_ids s" "added (fire e s) = added s"
        "awaiting (fire e s) = awaiting s" "downloading (fire e s) = downloading s"
      by (auto split: if_splits)
    have uid: "u_id ?u = None" "u_status ?u = None" by simp_all
    show ?thesis
      using assms has_status_other [OF eq uid(1)] uid(2) rest
      by (intro invariant_updateVideo [OF assms eq uid(1) rest(1)]) (auto simp: invariant_def)
  qed
next
  case (Remove vid)
  then have "fire e s = s\<lparr>videos := filter (\<lambda>v. vi_id v \<noteq> vid) (videos s)\<rparr>"
    by (simp add: removeVideo_def)
  with assms show ?thesis
    by (auto simp: invariant_def has_status_def distinct_map_filter)
next
  case ClearCompleted
  then have "fire e s = s\<lparr>videos := filter (\<lambda>v. vi_status v \<noteq> Completed) (videos s)\<rparr>"
    by (simp add: clearCompleted_def)
  with assms show ?thesis
    by (auto simp: invariant_def has_status_def distinct_map_filter)
qed


lemma invariant_init: "invariant init"
  by (simp add: invariant_def init_def)

lemma states_length [simp]: "length (states es s) = Suc (length es)"
  by (induction es arbitrary: s) simp_all

lemma states_0 [simp]: "states es s ! 0 = s"
  by (cases es) simp_all

lemma states_step:
  assumes "invariant s" and "i < length es"
  shows "status_step (observe (states es s ! i) x) (observe (states es s ! Suc i) x)"
  using assms
proof (induction es arbitrary: s i)
  case Nil
  then show ?case by simp
next
  case (Cons e es)
  show ?case
  proof (cases i)
    case 0
    then show ?thesis using fire_step [OF Cons.prems(1), of x e] by simp
  next
    case (Suc i')
    with Cons.prems have "i' < length es" by simp
    from Cons.IH [OF invariant_fire [OF Cons.prems(1)] this] Suc show ?thesis by simp
  qed
qed

lemma history_step:
  assumes "Suc i < length (history es vid)"
  shows "status_step (history es vid ! i) (history es vid ! Suc i)"
proof -
  from assms have "i < length es" by (simp add: history_def)
  from states_step [OF invariant_init this, of vid] this show ?thesis
    by (simp add: history_def)
qed

lemma history_0: "history es vid ! 0 = None"
  by (simp add: history_def observe_def init_def)

lemma analyzed_before:
  assumes "j < length (history es vid)"
    and "history es vid ! j \<in> {Some Analyzing, Some Ready, Some Downloading, Some Completed}"
  shows "\<exists>k \<le> j. history es vid ! k = Some Analyzing"
  using assms
proof (induction j)
  case 0
  then show ?case by (simp add: history_0)
next
  case (Suc j)
  from Suc.prems(1) have step: "status_step (history es vid ! j) (history es vid ! Suc j)"
    by (rule history_step)
  from Suc.prems(1) have j: "j < length (history es vid)" by simp
  show ?case
  proof (cases "history es vid ! Suc j = Some Analyzing")
    case True
    then show ?thesis by blast
  next
    case False
    with Suc.prems(2) step
    have "history es vid ! j \<in> {Some Analyzing, Some Ready, Some Downloading, Some Completed}"
      by (cases "history es vid ! j"; cases "the (history es vid ! j)") auto
    from Suc.IH [OF j this] show ?thesis using le_Suc_eq by blast
  qed
qed

text \<open>
  Claim C9. Along every sequence of events of the handlers, from the empty store, what
  is observed of a video changes only by the transitions \<open>pending \<rightarrow> analyzing \<rightarrow> ready |
  error\<close> and \<open>ready \<rightarrow> downloading \<rightarrow> completed | error\<close> (a video appears as \<open>pending\<close>
  and may be removed from the queue at any time); a video that is \<open>downloading\<close> has been
  \<open>analyzing\<close> before; and no step takes a video from \<open>downloading\<close> to \<open>analyzing\<close>.
\<close>

theorem status_machine:
  "(\<forall>i. Suc i < length (history es vid) \<longrightarrow>
       status_step (history es vid ! i) (history es vid ! Suc i))
   \<and> (\<forall>j < length (history es vid). history es vid ! j = Some Downloading \<longrightarrow>
         (\<exists>k < j. history es vid ! k = Some Analyzing))
   \<and> (\<forall>i. Suc i < length (history es vid) \<longrightarrow>
         \<not> (history es vid ! i = Some Downloading \<and> history es vid ! Suc i = Some Analyzing))"
proof (intro conjI allI impI)
  fix i assume "Suc i < length (history es vid)"
  then show "status_step (history es vid ! i) (history es vid ! Suc i)" by (rule history_step)
next
  fix j assume j: "j < length (history es vid)" and d: "history es vid ! j = Some Downloading"
  from analyzed_before [OF j] d obtain k where "k \<le> j" "history es vid ! k = Some Analyzing"
    by auto
  with d have "k < j" by (cases "k = j") auto
  with \<open>history es vid ! k = Some Analyzing\<close> show "\<exists>k < j. history es vid ! k = Some Analyzing"
    by blast
next
  fix i assume "Suc i < length (history es vid)"
  from history_step [OF this]
  show "\<not> (history es vid ! i = Some Downloading \<and> history es vid ! Suc i = Some Analyzing)"
    by auto
qed

theorem status_machine_witness:
  "history
     [Submit (js ''https://youtu.be/dQw4w9WgXcQ'') (js ''id-1''), MarkAnalyzing,
      AnalyzeOk \<lparr>md_platform = YouTube, md_title = js ''Video'', md_thumbnail = [],
                 md_duration = Num 0, md_qualities = [js ''720p'', js ''360p'']\<rparr>,
      ClickDownload (js ''id-1''), Progress (js ''id-1'') 50, DownloadOk (js ''id-1'')]
     (js ''id-1'')
   = [None, Some Pending, Some Analyzing, Some Ready, Some Downloading, Some Downloading,
      Some Completed]
   \<and> status_step (Some Ready) (Some Downloading)"
proof -
  let ?es = "[Submit (js ''https://youtu.be/dQw4w9WgXcQ'') (js ''id-1''), MarkAnalyzing,
      AnalyzeOk \<lparr>md_platform = YouTube, md_title = js ''Video'', md_thumbnail = [],
                 md_duration = Num 0, md_qualities = [js ''720p'', js ''360p'']\<rparr>,
      ClickDownload (js ''id-1''), Progress (js ''id-1'') 50, DownloadOk (js ''id-1'')]"
  have h: "history ?es (js ''id-1'')
     = [None, Some Pending, Some Analyzing, Some Ready, Some Downloading, Some Downloading,
        Some Completed]"
    by code_simp
  from status_machine [of ?es "js ''id-1''"]
  have "Suc 3 < length (history ?es (js ''id-1'')) \<longrightarrow>
       status_step (history ?es (js ''id-1'') ! 3) (history ?es (js ''id-1'') ! Suc 3)"
    by blast
  with h show ?thesis by simp
qed

end
